theory Spec2Isabelle
  imports Main "HOL-Library.AList" "HOL-Library.Sublist"
begin

section \<open>Python values and exceptions\<close>

text \<open>
  The operator receives the custom resource's \<open>spec\<close>, \<open>status\<close> and the diff values as
  parsed JSON: \<open>None\<close>, booleans, integers, strings, lists and dicts (insertion-ordered,
  string keys). A dict is an association list; \<open>AList.update\<close> is Python's \<open>d[k] = v\<close>
  (the value is replaced in place when the key exists, the pair is appended otherwise).
\<close>

datatype json =
    JNone
  | JBool bool
  | JInt int
  | JStr string
  | JList "json list"
  | JDict "(string \<times> json) list"

text \<open>
  Exceptions are values. \<open>ApiException\<close> carries the HTTP status of the kubernetes client's
  exception; \<open>NonApiException\<close> stands for any other exception a client call raises (for
  instance a transport failure of the HTTP library), which no \<open>except ApiException\<close> catches.
\<close>

datatype error =
    ApiException nat
  | NonApiException string
  | KeyError string
  | TypeError
  | AttributeError
  | ValueError
  | UnboundLocalError string

fun truthy :: "json \<Rightarrow> bool" where
  "truthy JNone = False"
| "truthy (JBool b) = b"
| "truthy (JInt i) = (i \<noteq> 0)"
| "truthy (JStr s) = (s \<noteq> [])"
| "truthy (JList xs) = (xs \<noteq> [])"
| "truthy (JDict kvs) = (kvs \<noteq> [])"

text \<open>\<open>d.get(k, default)\<close> on a mapping.\<close>

definition dict_get :: "(string \<times> json) list \<Rightarrow> string \<Rightarrow> json \<Rightarrow> json" where
  "dict_get d k dflt = (case map_of d k of None \<Rightarrow> dflt | Some v \<Rightarrow> v)"

text \<open>\<open>x.get(k)\<close> on a value: only a dict has the method.\<close>

fun py_get :: "json \<Rightarrow> string \<Rightarrow> error + json" where
  "py_get (JDict d) k = Inr (dict_get d k JNone)"
| "py_get _ k = Inl AttributeError"

text \<open>
  \<open>x[k]\<close> with a string key: a dict raises \<open>KeyError\<close> on a missing key, every other value
  raises \<open>TypeError\<close> (not subscriptable, or not subscriptable by a string).
\<close>

definition mapping_getitem :: "(string \<times> json) list \<Rightarrow> string \<Rightarrow> error + json" where
  "mapping_getitem d k = (case map_of d k of None \<Rightarrow> Inl (KeyError k) | Some v \<Rightarrow> Inr v)"

fun py_getitem :: "json \<Rightarrow> string \<Rightarrow> error + json" where
  "py_getitem (JDict d) k = mapping_getitem d k"
| "py_getitem _ k = Inl TypeError"

text \<open>\<open>x.items()\<close>.\<close>

fun py_items :: "json \<Rightarrow> error + (string \<times> json) list" where
  "py_items (JDict d) = Inr d"
| "py_items _ = Inl AttributeError"

text \<open>\<open>x.update({k: v})\<close>: mutation in place, modelled by the updated value.\<close>

fun py_update :: "json \<Rightarrow> string \<Rightarrow> json \<Rightarrow> error + json" where
  "py_update (JDict d) k v = Inr (JDict (AList.update k v d))"
| "py_update _ k v = Inl AttributeError"

text \<open>The decimal rendering of a natural number, as an f-string formats an \<open>int\<close>.\<close>

definition digit_char :: "nat \<Rightarrow> char" where
  "digit_char d = char_of (48 + d)"

fun str_of_nat :: "nat \<Rightarrow> string" where
  "str_of_nat n = (if n < 10 then [digit_char n] else str_of_nat (n div 10) @ [digit_char (n mod 10)])"

declare str_of_nat.simps [simp del]

section \<open>Kubernetes objects\<close>

text \<open>Only the fields the operator sets or reads are kept.\<close>

record owner_reference =
  or_kind :: string
  or_name :: string
  or_uid :: string

record object_meta =
  m_name :: "string option"
  m_namespace :: "string option"
  m_labels :: "(string \<times> string) list option"
  m_uid :: "string option"
  m_creation_timestamp :: "nat option"
  m_owner_references :: "owner_reference list option"

record env_var =
  ev_name :: string
  ev_value :: json

record resource_requirements =
  rr_requests :: "(string \<times> json) list"
  rr_limits :: "(string \<times> json) list"

record container =
  c_name :: string
  c_image :: string
  c_ports :: "nat list"
  c_resources :: resource_requirements
  c_env :: "env_var list option"

record pod_template_spec =
  t_metadata :: object_meta
  t_containers :: "container list"

record deployment_spec =
  ds_replicas :: json
  ds_template :: pod_template_spec
  ds_match_labels :: "(string \<times> string) list"

record deployment =
  d_api_version :: "string option"
  d_kind :: "string option"
  d_metadata :: "object_meta option"
  d_spec :: "deployment_spec option"

record service_port =
  sp_name :: string
  sp_protocol :: string
  sp_port :: nat

record service_spec =
  ss_selector :: "(string \<times> string) list"
  ss_ports :: "service_port list"
  ss_type :: string

record service =
  s_api_version :: "string option"
  s_kind :: "string option"
  s_metadata :: "object_meta option"
  s_spec :: "service_spec option"

datatype v1_status = V1Status string

section \<open>The cluster API and the runtime\<close>

text \<open>
  The kubernetes client is external to the repository: its seven calls are parameters,
  functions on an arbitrary cluster state \<open>'c\<close> that return the new state together with the
  live object or the exception raised. Listing is a read and does not change the state.
\<close>

record 'c cluster_api =
  create_namespaced_deployment :: "deployment \<Rightarrow> string \<Rightarrow> 'c \<Rightarrow> (error + deployment) \<times> 'c"
  patch_namespaced_deployment :: "string \<Rightarrow> string \<Rightarrow> deployment \<Rightarrow> 'c \<Rightarrow> (error + deployment) \<times> 'c"
  delete_namespaced_deployment :: "string \<Rightarrow> string \<Rightarrow> 'c \<Rightarrow> (error + v1_status) \<times> 'c"
  list_namespaced_deployment :: "string \<Rightarrow> 'c \<Rightarrow> error + deployment list"
  create_namespaced_service :: "service \<Rightarrow> string \<Rightarrow> 'c \<Rightarrow> (error + service) \<times> 'c"
  patch_namespaced_service :: "string \<Rightarrow> string \<Rightarrow> service \<Rightarrow> 'c \<Rightarrow> (error + service) \<times> 'c"
  delete_namespaced_service :: "string \<Rightarrow> string \<Rightarrow> 'c \<Rightarrow> (error + v1_status) \<times> 'c"

text \<open>Every call made to the cluster is recorded, with its arguments, in the order made.\<close>

datatype call =
    CreateDeployment deployment string
  | PatchDeployment string string deployment
  | DeleteDeployment string string
  | ListDeployments string
  | CreateService service string
  | PatchService string string service
  | DeleteService string string

record 'c world =
  cluster :: 'c
  calls :: "call list"

text \<open>
  The other external functions: \<open>kopf.adopt\<close> on a built Deployment and on a built Service
  (it mutates the object it is given; the model returns the adopted object), the
  locale-dependent \<open>datetime.strftime("%c")\<close>, Python's \<open>str()\<close> of a value that is not
  a string, as an f-string renders it, and Python's \<open>str.upper()\<close>, which upper-cases
  every cased letter of Unicode.
\<close>

record runtime =
  adopt_deployment :: "deployment \<Rightarrow> deployment"
  adopt_service :: "service \<Rightarrow> service"
  strftime_c :: "nat \<Rightarrow> string"
  str_builtin :: "json \<Rightarrow> string"
  str_upper :: "string \<Rightarrow> string"

fun format_field :: "runtime \<Rightarrow> json \<Rightarrow> string" where
  "format_field rt (JStr s) = s"
| "format_field rt v = str_builtin rt v"

text \<open>Sequencing of statements: an exception ends the sequence, the effects made stay.\<close>

definition and_then ::
  "('s \<Rightarrow> (error + 'a) \<times> 's) \<Rightarrow> ('a \<Rightarrow> 's \<Rightarrow> (error + 'b) \<times> 's) \<Rightarrow> 's \<Rightarrow> (error + 'b) \<times> 's" where
  "and_then m f s = (case m s of (Inl e, s') \<Rightarrow> (Inl e, s') | (Inr x, s') \<Rightarrow> f x s')"

definition record_call :: "call \<Rightarrow> 'c world \<Rightarrow> 'c world" where
  "record_call c w = w\<lparr>calls := calls w @ [c]\<rparr>"

definition mutating_call ::
  "call \<Rightarrow> ('c \<Rightarrow> (error + 'a) \<times> 'c) \<Rightarrow> 'c world \<Rightarrow> (error + 'a) \<times> 'c world" where
  "mutating_call c f w =
     (case f (cluster w) of (r, c') \<Rightarrow> (r, \<lparr>cluster = c', calls = calls w @ [c]\<rparr>))"

section \<open>kubeutils.py\<close>

definition create_deployment_object ::
  "runtime \<Rightarrow> string \<Rightarrow> string \<Rightarrow> json \<Rightarrow> json \<Rightarrow> json \<Rightarrow> resource_requirements \<Rightarrow>
   nat list \<Rightarrow> env_var list option \<Rightarrow> deployment" where
  "create_deployment_object rt name namespace image_registry image_tag replicas resources
     expose_ports env_vars =
     (let container = \<lparr>c_name = name,
            c_image = format_field rt image_registry @ '':'' @ format_field rt image_tag,
            c_ports = expose_ports, c_resources = resources, c_env = env_vars\<rparr>;
          template = \<lparr>t_metadata = \<lparr>m_name = None, m_namespace = Some namespace,
              m_labels = Some [(''app.kubernetes.io/name'', name)], m_uid = None,
              m_creation_timestamp = None, m_owner_references = None\<rparr>,
            t_containers = [container]\<rparr>;
          spec = \<lparr>ds_replicas = replicas, ds_template = template,
            ds_match_labels = [(''app.kubernetes.io/name'', name)]\<rparr>
      in \<lparr>d_api_version = Some ''apps/v1'', d_kind = Some ''Deployment'',
          d_metadata = Some \<lparr>m_name = Some name, m_namespace = Some namespace, m_labels = None,
            m_uid = None, m_creation_timestamp = None, m_owner_references = None\<rparr>,
          d_spec = Some spec\<rparr>)"

definition create_service_object ::
  "string \<Rightarrow> string \<Rightarrow> service_port list \<Rightarrow> (string \<times> string) list \<Rightarrow> service" where
  "create_service_object name namespace ports selector =
     (let spec = \<lparr>ss_selector = selector, ss_ports = ports, ss_type = ''ClusterIP''\<rparr>
      in \<lparr>s_api_version = Some ''v1'', s_kind = Some ''Service'',
          s_metadata = Some \<lparr>m_name = Some name, m_namespace = Some namespace, m_labels = None,
            m_uid = None, m_creation_timestamp = None, m_owner_references = None\<rparr>,
          s_spec = Some spec\<rparr>)"

text \<open>
  \<open>create_or_update_deployment\<close>: the \<open>except ApiException\<close> block assigns \<open>deployment\<close>
  only when the status is 409 and has no \<open>raise\<close>; after any other \<open>ApiException\<close> the
  function goes on to \<open>return deployment\<close>, a local that was never bound. An exception
  raised by the patch call inside the handler leaves the function as it is.
\<close>

definition create_or_update_deployment ::
  "'c cluster_api \<Rightarrow> string \<Rightarrow> deployment \<Rightarrow> string \<Rightarrow> 'c world \<Rightarrow> (error + deployment) \<times> 'c world" where
  "create_or_update_deployment api name deploy_obj namespace w =
     (case mutating_call (CreateDeployment deploy_obj namespace)
             (create_namespaced_deployment api deploy_obj namespace) w of
        (Inr deployment, w1) \<Rightarrow> (Inr deployment, w1)
      | (Inl ex, w1) \<Rightarrow>
          (case ex of
             ApiException status \<Rightarrow>
               if status = 409
               then mutating_call (PatchDeployment name namespace deploy_obj)
                      (patch_namespaced_deployment api name namespace deploy_obj) w1
               else (Inl (UnboundLocalError ''deployment''), w1)
           | _ \<Rightarrow> (Inl ex, w1)))"

definition create_or_update_service ::
  "'c cluster_api \<Rightarrow> string \<Rightarrow> service \<Rightarrow> string \<Rightarrow> 'c world \<Rightarrow> (error + service) \<times> 'c world" where
  "create_or_update_service api name svc_obj namespace w =
     (case mutating_call (CreateService svc_obj namespace)
             (create_namespaced_service api svc_obj namespace) w of
        (Inr service, w1) \<Rightarrow> (Inr service, w1)
      | (Inl ex, w1) \<Rightarrow>
          (case ex of
             ApiException status \<Rightarrow>
               if status = 409
               then mutating_call (PatchService name namespace svc_obj)
                      (patch_namespaced_service api name namespace svc_obj) w1
               else (Inl (UnboundLocalError ''service''), w1)
           | _ \<Rightarrow> (Inl ex, w1)))"

text \<open>
  \<open>teardown_deployment\<close> and \<open>teardown_service\<close> return what the delete call returned; on
  an \<open>ApiException\<close> whose status is not 404 they re-raise it, on 404 they fall off the end
  and return \<open>None\<close>.
\<close>

definition teardown_deployment ::
  "'c cluster_api \<Rightarrow> string \<Rightarrow> string \<Rightarrow> 'c world \<Rightarrow> (error + v1_status option) \<times> 'c world" where
  "teardown_deployment api name namespace w =
     (case mutating_call (DeleteDeployment name namespace)
             (delete_namespaced_deployment api name namespace) w of
        (Inr st, w1) \<Rightarrow> (Inr (Some st), w1)
      | (Inl ex, w1) \<Rightarrow>
          (case ex of
             ApiException status \<Rightarrow>
               if \<not> status = 404 then (Inl ex, w1) else (Inr None, w1)
           | _ \<Rightarrow> (Inl ex, w1)))"

definition teardown_service ::
  "'c cluster_api \<Rightarrow> string \<Rightarrow> string \<Rightarrow> 'c world \<Rightarrow> (error + v1_status option) \<times> 'c world" where
  "teardown_service api name namespace w =
     (case mutating_call (DeleteService name namespace)
             (delete_namespaced_service api name namespace) w of
        (Inr st, w1) \<Rightarrow> (Inr (Some st), w1)
      | (Inl ex, w1) \<Rightarrow>
          (case ex of
             ApiException status \<Rightarrow>
               if \<not> status = 404 then (Inl ex, w1) else (Inr None, w1)
           | _ \<Rightarrow> (Inl ex, w1)))"

text \<open>
  \<open>get_deployment\<close>: list the namespace, return the first deployment whose
  \<open>metadata.name\<close> is the name, \<open>None\<close> when there is none. Reading \<open>.name\<close> of a missing
  \<open>metadata\<close> raises \<open>AttributeError\<close>.
\<close>

fun find_deployment :: "string \<Rightarrow> deployment list \<Rightarrow> error + deployment option" where
  "find_deployment name [] = Inr None"
| "find_deployment name (d # ds) =
     (case d_metadata d of
        None \<Rightarrow> Inl AttributeError
      | Some m \<Rightarrow> if m_name m = Some name then Inr (Some d) else find_deployment name ds)"

definition get_deployment ::
  "'c cluster_api \<Rightarrow> string \<Rightarrow> string \<Rightarrow> 'c world \<Rightarrow> (error + deployment option) \<times> 'c world" where
  "get_deployment api name namespace w =
     (case list_namespaced_deployment api namespace (cluster w) of
        Inl ex \<Rightarrow> (Inl ex, record_call (ListDeployments namespace) w)
      | Inr items \<Rightarrow> (find_deployment name items, record_call (ListDeployments namespace) w))"

section \<open>podinfo_operator.py\<close>

definition PODINFO_DEPLOYMENT_NAME :: string where
  "PODINFO_DEPLOYMENT_NAME = ''podinfo''"

definition PODINFO_PORT :: nat where
  "PODINFO_PORT = 9898"

definition REDIS_DEPLOYMENT_NAME :: string where
  "REDIS_DEPLOYMENT_NAME = ''redis''"

definition REDIS_PORT :: nat where
  "REDIS_PORT = 6379"

definition DEFAULT_STATUS :: json where
  "DEFAULT_STATUS = JDict [(''created_on'', JStr ''Not Created''), (''uid'', JStr [])]"

text \<open>A pure computation placed in a sequence of statements.\<close>

definition lift :: "error + 'a \<Rightarrow> 's \<Rightarrow> (error + 'a) \<times> 's" where
  "lift r s = (r, s)"

text \<open>
  The dict the create sequence returns, read off the live Deployment:
  \<open>deployment.metadata.creation_timestamp.strftime("%c")\<close> and \<open>deployment.metadata.uid\<close>.
\<close>

definition child_status :: "runtime \<Rightarrow> deployment \<Rightarrow> error + json" where
  "child_status rt deployment =
     (case d_metadata deployment of
        None \<Rightarrow> Inl AttributeError
      | Some m \<Rightarrow>
          (case m_creation_timestamp m of
             None \<Rightarrow> Inl AttributeError
           | Some ts \<Rightarrow>
               Inr (JDict [(''created_on'', JStr (strftime_c rt ts)),
                           (''uid'', case m_uid m of None \<Rightarrow> JNone | Some u \<Rightarrow> JStr u)])))"

text \<open>
  \<open>create_deployment_and_service\<close>: build both objects, adopt both, create-or-update the
  Deployment, then the Service. \<open>V1ContainerPort\<close> rejects a missing port (the default
  \<open>expose_port=None\<close>) with \<open>ValueError\<close> before anything is built.
\<close>

definition create_deployment_and_service ::
  "runtime \<Rightarrow> 'c cluster_api \<Rightarrow> string \<Rightarrow> string \<Rightarrow> json \<Rightarrow> json \<Rightarrow> json \<Rightarrow>
   resource_requirements \<Rightarrow> nat option \<Rightarrow> env_var list option \<Rightarrow>
   'c world \<Rightarrow> (error + json) \<times> 'c world" where
  "create_deployment_and_service rt api name namespace image_repo image_tag replicas resources
     expose_port env_vars w =
     (case expose_port of
        None \<Rightarrow> (Inl ValueError, w)
      | Some port \<Rightarrow>
          (let deploy_obj = create_deployment_object rt name namespace image_repo image_tag
                 replicas resources [port] env_vars;
               svc_obj = create_service_object name namespace
                 [\<lparr>sp_name = name, sp_protocol = ''TCP'', sp_port = port\<rparr>]
                 [(''app.kubernetes.io/name'', name)];
               adopted_deploy_obj = adopt_deployment rt deploy_obj;
               adopted_svc_obj = adopt_service rt svc_obj
           in and_then (create_or_update_deployment api name adopted_deploy_obj namespace)
                (\<lambda>deployment.
                   and_then (create_or_update_service api name adopted_svc_obj namespace)
                     (\<lambda>service. lift (child_status rt deployment))) w))"

text \<open>
  The environment of the podinfo container (lines 112 to 124): the variables of \<open>spec.ui\<close>
  are built first (a \<open>ui\<close> that is not a dict has no \<open>items\<close>), the fixed variable is put
  in front of them.
\<close>

definition default_env_vars :: "env_var list" where
  "default_env_vars =
     [\<lparr>ev_name = ''PODINFO_CACHE_SERVER'',
       ev_value = JStr (''tcp://'' @ REDIS_DEPLOYMENT_NAME @ '':'' @ str_of_nat REDIS_PORT)\<rparr>]"

definition podinfo_env_vars :: "runtime \<Rightarrow> (string \<times> json) list \<Rightarrow> error + env_var list" where
  "podinfo_env_vars rt spec =
     (case py_items (dict_get spec ''ui'' (JDict [])) of
        Inl ex \<Rightarrow> Inl ex
      | Inr items \<Rightarrow>
          (let ui_vars =
                 map (\<lambda>(k, v). \<lparr>ev_name = ''PODINFO_UI_'' @ str_upper rt k, ev_value = v\<rparr>) items
           in Inr (default_env_vars @ ui_vars)))"

definition create_podinfo_deployment_and_service ::
  "runtime \<Rightarrow> 'c cluster_api \<Rightarrow> string \<Rightarrow> (string \<times> json) list \<Rightarrow>
   'c world \<Rightarrow> (error + json) \<times> 'c world" where
  "create_podinfo_deployment_and_service rt api namespace spec =
     and_then (lift (podinfo_env_vars rt spec)) (\<lambda>env_vars.
     and_then (lift (py_getitem (dict_get spec ''image'' JNone) ''repository'')) (\<lambda>image_repo.
     and_then (lift (py_getitem (dict_get spec ''image'' JNone) ''tag'')) (\<lambda>image_tag.
     and_then (lift (py_getitem (dict_get spec ''resources'' JNone) ''cpuRequest'')) (\<lambda>cpu_request.
     and_then (lift (py_getitem (dict_get spec ''resources'' JNone) ''memoryLimit'')) (\<lambda>memory_limit.
       create_deployment_and_service rt api PODINFO_DEPLOYMENT_NAME namespace image_repo image_tag
         (dict_get spec ''replicaCount'' JNone)
         \<lparr>rr_requests = [(''cpu'', cpu_request)], rr_limits = [(''memory'', memory_limit)]\<rparr>
         (Some PODINFO_PORT) (Some env_vars))))))"

definition redis_resources :: resource_requirements where
  "redis_resources =
     \<lparr>rr_requests = [(''cpu'', JStr ''100m''), (''memory'', JStr ''32Mi'')],
      rr_limits = [(''cpu'', JStr ''1000m''), (''memory'', JStr ''128Mi'')]\<rparr>"

definition create_redis_deployment_and_service ::
  "runtime \<Rightarrow> 'c cluster_api \<Rightarrow> string \<Rightarrow> (string \<times> json) list \<Rightarrow>
   'c world \<Rightarrow> (error + json) \<times> 'c world" where
  "create_redis_deployment_and_service rt api namespace spec =
     create_deployment_and_service rt api REDIS_DEPLOYMENT_NAME namespace
       (JStr ''redis'') (JStr ''7.0.12'') (JInt 1) redis_resources (Some REDIS_PORT) None"

definition on_create ::
  "runtime \<Rightarrow> 'c cluster_api \<Rightarrow> string \<Rightarrow> (string \<times> json) list \<Rightarrow>
   'c world \<Rightarrow> (error + json) \<times> 'c world" where
  "on_create rt api namespace spec =
     and_then (lift (py_get (dict_get spec ''redis'' (JDict [])) ''enabled'')) (\<lambda>redis_enabled.
     and_then (create_podinfo_deployment_and_service rt api namespace spec) (\<lambda>podinfo_status.
     and_then (if truthy redis_enabled
               then create_redis_deployment_and_service rt api namespace spec
               else lift (Inr DEFAULT_STATUS)) (\<lambda>redis_status.
       lift (Inr (JDict [(''children'',
         JDict [(''redis'', redis_status), (''podInfo'', podinfo_status)])])))))"

text \<open>
  A diff entry is the tuple \<open>(oper, field, old_val, new_val)\<close>; \<open>field\<close> is a tuple of
  path segments, which the handler compares with the tuple
  \<open>("spec", "redis", "enabled")\<close>. On a tuple, \<open>"redis" in field\<close> is membership: some
  segment is equal to \<open>"redis"\<close>.
\<close>

type_synonym diff_entry = "string \<times> string list \<times> json \<times> json"

text \<open>The body of the \<open>if "redis" in field\<close> branch (lines 249 to 261).\<close>

definition redis_policy ::
  "runtime \<Rightarrow> 'c cluster_api \<Rightarrow> string \<Rightarrow> (string \<times> json) list \<Rightarrow> string list \<Rightarrow> json \<Rightarrow>
   json \<Rightarrow> 'c world \<Rightarrow> (error + json) \<times> 'c world" where
  "redis_policy rt api namespace spec field new_val new_status =
     (let redis_enabled = (if [''spec'', ''redis'', ''enabled''] = field then new_val else JBool False)
      in if truthy redis_enabled
         then and_then (get_deployment api ''redis'' namespace) (\<lambda>found.
                case found of
                  None \<Rightarrow>
                    and_then (create_redis_deployment_and_service rt api namespace spec)
                      (\<lambda>redis_status. lift (py_update new_status ''redis'' redis_status))
                | Some d \<Rightarrow> lift (Inr new_status))
         else and_then (teardown_deployment api ''redis'' namespace) (\<lambda>_.
              and_then (teardown_service api ''redis'' namespace) (\<lambda>_.
                lift (Inr new_status))))"

text \<open>The body of the \<open>else\<close> branch (lines 265 to 272).\<close>

definition podinfo_policy ::
  "runtime \<Rightarrow> 'c cluster_api \<Rightarrow> string \<Rightarrow> (string \<times> json) list \<Rightarrow>
   json \<Rightarrow> 'c world \<Rightarrow> (error + json) \<times> 'c world" where
  "podinfo_policy rt api namespace spec new_status =
     and_then (get_deployment api ''podinfo'' namespace) (\<lambda>found.
       case found of
         None \<Rightarrow> lift (Inr new_status)
       | Some d \<Rightarrow>
           and_then (create_podinfo_deployment_and_service rt api namespace spec)
             (\<lambda>podinfo_status. lift (py_update new_status ''podInfo'' podinfo_status)))"

text \<open>One iteration of the loop over the diff.\<close>

fun on_update_entry ::
  "runtime \<Rightarrow> 'c cluster_api \<Rightarrow> string \<Rightarrow> (string \<times> json) list \<Rightarrow> diff_entry \<Rightarrow>
   json \<Rightarrow> 'c world \<Rightarrow> (error + json) \<times> 'c world" where
  "on_update_entry rt api namespace spec (oper, field, old_val, new_val) new_status =
     (if ''redis'' \<in> set field
      then redis_policy rt api namespace spec field new_val new_status
      else podinfo_policy rt api namespace spec new_status)"

fun on_update_loop ::
  "runtime \<Rightarrow> 'c cluster_api \<Rightarrow> string \<Rightarrow> (string \<times> json) list \<Rightarrow> diff_entry list \<Rightarrow>
   json \<Rightarrow> 'c world \<Rightarrow> (error + json) \<times> 'c world" where
  "on_update_loop rt api namespace spec [] new_status w = (Inr new_status, w)"
| "on_update_loop rt api namespace spec (entry # diff) new_status w =
     (case on_update_entry rt api namespace spec entry new_status w of
        (Inl ex, w1) \<Rightarrow> (Inl ex, w1)
      | (Inr new_status1, w1) \<Rightarrow> on_update_loop rt api namespace spec diff new_status1 w1)"

definition on_update ::
  "runtime \<Rightarrow> 'c cluster_api \<Rightarrow> string \<Rightarrow> (string \<times> json) list \<Rightarrow> (string \<times> json) list \<Rightarrow>
   diff_entry list \<Rightarrow> 'c world \<Rightarrow> (error + json) \<times> 'c world" where
  "on_update rt api namespace spec status diff w =
     (case mapping_getitem status ''on_create'' of
        Inl ex \<Rightarrow> (Inl ex, w)
      | Inr on_create_status \<Rightarrow>
          (case py_getitem on_create_status ''children'' of
             Inl ex \<Rightarrow> (Inl ex, w)
           | Inr new_status \<Rightarrow> on_update_loop rt api namespace spec diff new_status w))"

section \<open>The child statuses an update computes\<close>

text \<open>
  The Update policy as the specification words it, without the children map: for each diff
  entry, which create sequence is performed and which status it yields. An entry whose path
  mentions \<open>redis\<close>: when the path is exactly \<open>(spec, redis, enabled)\<close> and the new value is
  true, and no redis Deployment exists, the redis create sequence is performed and yields a
  status for \<open>redis\<close>; otherwise the redis Deployment and Service are torn down and nothing
  is computed. Any other entry: the podinfo sequence is re-run, and yields a status for
  \<open>podInfo\<close>, only if a podinfo Deployment exists.
\<close>

definition computed_child_status ::
  "runtime \<Rightarrow> 'c cluster_api \<Rightarrow> string \<Rightarrow> (string \<times> json) list \<Rightarrow> diff_entry \<Rightarrow>
   'c world \<Rightarrow> (error + (string \<times> json) list) \<times> 'c world" where
  "computed_child_status rt api namespace spec entry =
     (case entry of (oper, field, old_val, new_val) \<Rightarrow>
        if ''redis'' \<in> set field
        then if field = [''spec'', ''redis'', ''enabled''] \<and> truthy new_val
             then and_then (get_deployment api ''redis'' namespace) (\<lambda>found.
                    case found of
                      None \<Rightarrow>
                        and_then (create_redis_deployment_and_service rt api namespace spec)
                          (\<lambda>redis_status. lift (Inr [(''redis'', redis_status)]))
                    | Some d \<Rightarrow> lift (Inr []))
             else and_then (teardown_deployment api ''redis'' namespace) (\<lambda>_.
                  and_then (teardown_service api ''redis'' namespace) (\<lambda>_. lift (Inr [])))
        else and_then (get_deployment api ''podinfo'' namespace) (\<lambda>found.
               case found of
                 None \<Rightarrow> lift (Inr [])
               | Some d \<Rightarrow>
                   and_then (create_podinfo_deployment_and_service rt api namespace spec)
                     (\<lambda>podinfo_status. lift (Inr [(''podInfo'', podinfo_status)]))))"

text \<open>The statuses computed over the whole diff, in the order computed.\<close>

fun computed_child_statuses ::
  "runtime \<Rightarrow> 'c cluster_api \<Rightarrow> string \<Rightarrow> (string \<times> json) list \<Rightarrow> diff_entry list \<Rightarrow>
   'c world \<Rightarrow> (error + (string \<times> json) list) \<times> 'c world" where
  "computed_child_statuses rt api namespace spec [] w = (Inr [], w)"
| "computed_child_statuses rt api namespace spec (entry # diff) w =
     (case computed_child_status rt api namespace spec entry w of
        (Inl ex, w1) \<Rightarrow> (Inl ex, w1)
      | (Inr first, w1) \<Rightarrow>
          (case computed_child_statuses rt api namespace spec diff w1 of
             (Inl ex, w2) \<Rightarrow> (Inl ex, w2)
           | (Inr later, w2) \<Rightarrow> (Inr (first @ later), w2)))"

text \<open>
  Merging computed statuses into a children map, as \<open>dict.update\<close> does it one status after
  the other.
\<close>

definition merge_statuses ::
  "(string \<times> json) list \<Rightarrow> (string \<times> json) list \<Rightarrow> (string \<times> json) list" where
  "merge_statuses children computed = fold (\<lambda>(k, v). AList.update k v) computed children"

section \<open>Reading the recorded calls and the built objects\<close>

definition deployment_name :: "deployment \<Rightarrow> string option" where
  "deployment_name d = (case d_metadata d of None \<Rightarrow> None | Some m \<Rightarrow> m_name m)"

definition service_name :: "service \<Rightarrow> string option" where
  "service_name s = (case s_metadata s of None \<Rightarrow> None | Some m \<Rightarrow> m_name m)"

text \<open>The name of the object a create, patch or delete call is about; a list call has none.\<close>

fun call_target :: "call \<Rightarrow> string option" where
  "call_target (CreateDeployment body ns) = deployment_name body"
| "call_target (PatchDeployment name ns body) = Some name"
| "call_target (DeleteDeployment name ns) = Some name"
| "call_target (ListDeployments ns) = None"
| "call_target (CreateService body ns) = service_name body"
| "call_target (PatchService name ns body) = Some name"
| "call_target (DeleteService name ns) = Some name"

fun is_create_or_patch :: "call \<Rightarrow> bool" where
  "is_create_or_patch (CreateDeployment body ns) = True"
| "is_create_or_patch (PatchDeployment name ns body) = True"
| "is_create_or_patch (CreateService body ns) = True"
| "is_create_or_patch (PatchService name ns body) = True"
| "is_create_or_patch _ = False"

fun is_delete :: "call \<Rightarrow> bool" where
  "is_delete (DeleteDeployment name ns) = True"
| "is_delete (DeleteService name ns) = True"
| "is_delete _ = False"

definition has_owner :: "owner_reference \<Rightarrow> object_meta option \<Rightarrow> bool" where
  "has_owner owner meta =
     (case meta of
        None \<Rightarrow> False
      | Some m \<Rightarrow> (case m_owner_references m of None \<Rightarrow> False | Some refs \<Rightarrow> owner \<in> set refs))"

text \<open>The object a create or patch call sends carries an owner reference to the parent.\<close>

fun call_body_owned :: "owner_reference \<Rightarrow> call \<Rightarrow> bool" where
  "call_body_owned owner (CreateDeployment body ns) = has_owner owner (d_metadata body)"
| "call_body_owned owner (PatchDeployment name ns body) = has_owner owner (d_metadata body)"
| "call_body_owned owner (CreateService body ns) = has_owner owner (s_metadata body)"
| "call_body_owned owner (PatchService name ns body) = has_owner owner (s_metadata body)"
| "call_body_owned owner _ = True"

text \<open>The environments of the containers in the Deployment a create or patch call sends.\<close>

fun sent_env :: "call \<Rightarrow> env_var list option list" where
  "sent_env (CreateDeployment body ns) =
     (case d_spec body of None \<Rightarrow> [] | Some sp \<Rightarrow> map c_env (t_containers (ds_template sp)))"
| "sent_env (PatchDeployment name ns body) =
     (case d_spec body of None \<Rightarrow> [] | Some sp \<Rightarrow> map c_env (t_containers (ds_template sp)))"
| "sent_env _ = []"

text \<open>The live Deployment carries a uid that is not the empty string.\<close>

definition uid_assigned :: "deployment \<Rightarrow> bool" where
  "uid_assigned d =
     (case d_metadata d of
        None \<Rightarrow> False
      | Some m \<Rightarrow> (case m_uid m of None \<Rightarrow> False | Some u \<Rightarrow> u \<noteq> []))"

text \<open>
  The calls a create sequence can make: a create or a patch whose body is an adopted
  object.
\<close>

inductive create_sequence_call :: "runtime \<Rightarrow> call \<Rightarrow> bool" for rt :: runtime where
  "create_sequence_call rt (CreateDeployment (adopt_deployment rt d) ns)"
| "create_sequence_call rt (PatchDeployment name ns (adopt_deployment rt d))"
| "create_sequence_call rt (CreateService (adopt_service rt s) ns)"
| "create_sequence_call rt (PatchService name ns (adopt_service rt s))"

text \<open>The Deployment and the Service a create sequence builds, before adoption.\<close>

definition redis_deployment_object :: "runtime \<Rightarrow> string \<Rightarrow> deployment" where
  "redis_deployment_object rt namespace =
     create_deployment_object rt ''redis'' namespace (JStr ''redis'') (JStr ''7.0.12'') (JInt 1)
       redis_resources [6379] None"

definition built_service_object :: "string \<Rightarrow> string \<Rightarrow> nat \<Rightarrow> service" where
  "built_service_object name namespace port =
     create_service_object name namespace
       [\<lparr>sp_name = name, sp_protocol = ''TCP'', sp_port = port\<rparr>]
       [(''app.kubernetes.io/name'', name)]"

section \<open>A small cluster and a failing cluster, to run the handlers on\<close>

text \<open>
  A cluster that holds the live Deployments and Services of one namespace. Create answers
  409 when the name is taken and otherwise stores the object with a uid and a creation
  time; patch and delete answer 404 when the name is absent.
\<close>

type_synonym sim_cluster = "deployment list \<times> service list"

definition empty_meta :: object_meta where
  "empty_meta = \<lparr>m_name = None, m_namespace = None, m_labels = None, m_uid = None,
     m_creation_timestamp = None, m_owner_references = None\<rparr>"

definition stamp_meta :: "object_meta option \<Rightarrow> object_meta option" where
  "stamp_meta meta =
     (let m = (case meta of None \<Rightarrow> empty_meta | Some m \<Rightarrow> m)
      in Some (m\<lparr>m_uid := Some (''uid-'' @ (case m_name m of None \<Rightarrow> [] | Some n \<Rightarrow> n)),
                m_creation_timestamp := Some 0\<rparr>))"

definition sim_api :: "sim_cluster cluster_api" where
  "sim_api =
     \<lparr>create_namespaced_deployment = (\<lambda>body ns (ds, ss).
        if deployment_name body \<in> set (map deployment_name ds)
        then (Inl (ApiException 409), (ds, ss))
        else (let live = body\<lparr>d_metadata := stamp_meta (d_metadata body)\<rparr>
              in (Inr live, (ds @ [live], ss)))),
      patch_namespaced_deployment = (\<lambda>name ns body (ds, ss).
        if Some name \<in> set (map deployment_name ds)
        then (let live = body\<lparr>d_metadata := stamp_meta (d_metadata body)\<rparr>
              in (Inr live, (map (\<lambda>d. if deployment_name d = Some name then live else d) ds, ss)))
        else (Inl (ApiException 404), (ds, ss))),
      delete_namespaced_deployment = (\<lambda>name ns (ds, ss).
        if Some name \<in> set (map deployment_name ds)
        then (Inr (V1Status ''Success''), (filter (\<lambda>d. deployment_name d \<noteq> Some name) ds, ss))
        else (Inl (ApiException 404), (ds, ss))),
      list_namespaced_deployment = (\<lambda>ns (ds, ss). Inr ds),
      create_namespaced_service = (\<lambda>body ns (ds, ss).
        if service_name body \<in> set (map service_name ss)
        then (Inl (ApiException 409), (ds, ss))
        else (let live = body\<lparr>s_metadata := stamp_meta (s_metadata body)\<rparr>
              in (Inr live, (ds, ss @ [live])))),
      patch_namespaced_service = (\<lambda>name ns body (ds, ss).
        if Some name \<in> set (map service_name ss)
        then (let live = body\<lparr>s_metadata := stamp_meta (s_metadata body)\<rparr>
              in (Inr live, (ds, map (\<lambda>s. if service_name s = Some name then live else s) ss)))
        else (Inl (ApiException 404), (ds, ss))),
      delete_namespaced_service = (\<lambda>name ns (ds, ss).
        if Some name \<in> set (map service_name ss)
        then (Inr (V1Status ''Success''), (ds, filter (\<lambda>s. service_name s \<noteq> Some name) ss))
        else (Inl (ApiException 404), (ds, ss)))\<rparr>"

text \<open>A cluster every call to which raises \<open>ApiException\<close> with the given status.\<close>

definition failing_api :: "nat \<Rightarrow> unit cluster_api" where
  "failing_api status =
     \<lparr>create_namespaced_deployment = (\<lambda>body ns c. (Inl (ApiException status), c)),
      patch_namespaced_deployment = (\<lambda>name ns body c. (Inl (ApiException status), c)),
      delete_namespaced_deployment = (\<lambda>name ns c. (Inl (ApiException status), c)),
      list_namespaced_deployment = (\<lambda>ns c. Inl (ApiException status)),
      create_namespaced_service = (\<lambda>body ns c. (Inl (ApiException status), c)),
      patch_namespaced_service = (\<lambda>name ns body c. (Inl (ApiException status), c)),
      delete_namespaced_service = (\<lambda>name ns c. (Inl (ApiException status), c))\<rparr>"

definition parent :: owner_reference where
  "parent = \<lparr>or_kind = ''MyAppResource'', or_name = ''my-app'', or_uid = ''parent-uid''\<rparr>"

definition add_owner :: "owner_reference \<Rightarrow> object_meta option \<Rightarrow> object_meta option" where
  "add_owner owner meta =
     (let m = (case meta of None \<Rightarrow> empty_meta | Some m \<Rightarrow> m)
      in Some (m\<lparr>m_owner_references :=
           Some ((case m_owner_references m of None \<Rightarrow> [] | Some refs \<Rightarrow> refs) @ [owner])\<rparr>))"

text \<open>
  The upper-casing of the small runtime: the letters a to z become A to Z, which is what
  \<open>str.upper()\<close> does on text made of ASCII characters.
\<close>

definition ascii_upper_char :: "char \<Rightarrow> char" where
  "ascii_upper_char c =
     (let n = (of_char c :: nat) in if 97 \<le> n \<and> n \<le> 122 then char_of (n - 32) else c)"

definition ascii_upper :: "string \<Rightarrow> string" where
  "ascii_upper s = map ascii_upper_char s"

definition sim_runtime :: runtime where
  "sim_runtime =
     \<lparr>adopt_deployment = (\<lambda>d. d\<lparr>d_metadata := add_owner parent (d_metadata d)\<rparr>),
      adopt_service = (\<lambda>s. s\<lparr>s_metadata := add_owner parent (s_metadata s)\<rparr>),
      strftime_c = (\<lambda>ts. ''t'' @ str_of_nat ts),
      str_builtin = (\<lambda>v. ''?''),
      str_upper = ascii_upper\<rparr>"

definition empty_world :: "sim_cluster world" where
  "empty_world = \<lparr>cluster = ([], []), calls = []\<rparr>"

definition unit_world :: "unit world" where
  "unit_world = \<lparr>cluster = (), calls = []\<rparr>"

definition example_spec :: "(string \<times> json) list" where
  "example_spec =
     [(''image'', JDict [(''repository'', JStr ''myrepo''), (''tag'', JStr ''v1'')]),
      (''replicaCount'', JInt 2),
      (''resources'', JDict [(''cpuRequest'', JStr ''50m''), (''memoryLimit'', JStr ''64Mi'')]),
      (''ui'', JDict [(''color'', JStr ''blue''), (''message'', JStr ''hi'')]),
      (''redis'', JDict [(''enabled'', JBool True)])]"

text \<open>A spec without the optional keys \<open>ui\<close> and \<open>redis\<close>.\<close>

definition plain_spec :: "(string \<times> json) list" where
  "plain_spec =
     [(''image'', JDict [(''repository'', JStr ''myrepo''), (''tag'', JStr ''v1'')]),
      (''replicaCount'', JInt 2),
      (''resources'', JDict [(''cpuRequest'', JStr ''50m''), (''memoryLimit'', JStr ''64Mi'')])]"

text \<open>
  The status of a parent whose Create ran with redis disabled, with a further entry in the
  children map that the handlers do not manage, and a diff of two entries: redis is
  enabled and the image tag is changed.
\<close>

definition example_status :: "(string \<times> json) list" where
  "example_status =
     [(''on_create'', JDict [(''children'',
        JDict [(''redis'', DEFAULT_STATUS),
               (''podInfo'', JDict [(''created_on'', JStr ''earlier''),
                                    (''uid'', JStr ''uid-earlier'')]),
               (''other'', JStr ''kept'')])])]"

definition example_diff :: "diff_entry list" where
  "example_diff =
     [(''change'', [''spec'', ''redis'', ''enabled''], JBool False, JBool True),
      (''change'', [''spec'', ''image'', ''tag''], JStr ''v1'', JStr ''v2'')]"

text \<open>A world whose cluster holds one live Deployment of the given name.\<close>

definition named_deployment :: "string \<Rightarrow> deployment" where
  "named_deployment name =
     \<lparr>d_api_version = Some ''apps/v1'', d_kind = Some ''Deployment'',
      d_metadata = stamp_meta (Some (empty_meta\<lparr>m_name := Some name\<rparr>)), d_spec = None\<rparr>"

definition world_with :: "string \<Rightarrow> sim_cluster world" where
  "world_with name = \<lparr>cluster = ([named_deployment name], []), calls = []\<rparr>"

text \<open>
  The reading of \<open>"redis" in field\<close> as substring containment: some segment of the path
  has \<open>redis\<close> as a substring.
\<close>

definition loosely_mentions_redis :: "string list \<Rightarrow> bool" where
  "loosely_mentions_redis field = list_ex (sublist ''redis'') field"

section \<open>Sequencing and the recorded calls\<close>

lemma and_then_lift_Inr: "and_then (lift (Inr x)) f w = f x w"
  by (simp add: and_then_def lift_def)

lemma and_then_lift_Inl: "and_then (lift (Inl e)) f w = (Inl e, w)"
  by (simp add: and_then_def lift_def)

lemma and_then_cases:
  assumes "and_then m f w = (r, w')"
  obtains (raised) e where "m w = (Inl e, w')" "r = Inl e"
        | (went_on) x w1 where "m w = (Inr x, w1)" "f x w1 = (r, w')"
  using assms by (auto simp: and_then_def split: prod.splits sum.splits)

lemma mutating_call_calls:
  "mutating_call c f w = (r, w') \<Longrightarrow> calls w' = calls w @ [c]"
  by (auto simp: mutating_call_def split: prod.splits)

lemma create_or_update_deployment_calls:
  assumes "create_or_update_deployment api name body ns w = (r, w')"
  shows "calls w' = calls w @ [CreateDeployment body ns]
       \<or> calls w' = calls w @ [CreateDeployment body ns, PatchDeployment name ns body]"
  using assms
  by (auto simp: create_or_update_deployment_def split: prod.splits sum.splits error.splits if_splits
      dest!: mutating_call_calls)

lemma create_or_update_service_calls:
  assumes "create_or_update_service api name body ns w = (r, w')"
  shows "calls w' = calls w @ [CreateService body ns]
       \<or> calls w' = calls w @ [CreateService body ns, PatchService name ns body]"
  using assms
  by (auto simp: create_or_update_service_def split: prod.splits sum.splits error.splits if_splits
      dest!: mutating_call_calls)

text \<open>
  The calls of one create sequence: the create of the adopted Deployment comes first; what
  follows is its patch, the create of the adopted Service and its patch.
\<close>

lemma create_deployment_and_service_calls:
  assumes run: "create_deployment_and_service rt api name ns repo tag replicas res (Some port) env w = (r, w')"
    and d: "d = adopt_deployment rt (create_deployment_object rt name ns repo tag replicas res [port] env)"
    and s: "s = adopt_service rt (built_service_object name ns port)"
  shows "\<exists>cs. calls w' = calls w @ CreateDeployment d ns # cs
            \<and> set cs \<subseteq> {PatchDeployment name ns d, CreateService s ns, PatchService name ns s}"
proof -
  from run have "and_then (create_or_update_deployment api name d ns)
       (\<lambda>deployment. and_then (create_or_update_service api name s ns)
          (\<lambda>service. lift (child_status rt deployment))) w = (r, w')"
    by (simp add: create_deployment_and_service_def d s built_service_object_def Let_def)
  then show ?thesis
  proof (cases rule: and_then_cases)
    case (raised e)
    from create_or_update_deployment_calls [OF raised(1)] show ?thesis by auto
  next
    case (went_on x w1)
    note dep = create_or_update_deployment_calls [OF went_on(1)]
    from went_on(2) show ?thesis
    proof (cases rule: and_then_cases)
      case (raised e)
      from create_or_update_service_calls [OF raised(1)] dep show ?thesis by auto
    next
      case (went_on y w2)
      from went_on(2) have "w' = w2" by (simp add: lift_def)
      with create_or_update_service_calls [OF went_on(1)] dep show ?thesis by auto
    qed
  qed
qed

section \<open>Teardown\<close>

text \<open>
  C7. \<open>teardown_deployment\<close> and \<open>teardown_service\<close> make one delete call. When the cluster
  answers with \<open>ApiException\<close> of status 404 they return \<open>None\<close> instead of raising, so
  deleting an absent object succeeds; every other exception of the delete call leaves the
  function unchanged; a successful delete returns the cluster's answer.
\<close>

theorem teardown_absent_is_success:
  "(delete_namespaced_deployment api name ns (cluster w) = (r, c') \<longrightarrow>
      teardown_deployment api name ns w =
        ((case r of
            Inr st \<Rightarrow> Inr (Some st)
          | Inl ex \<Rightarrow> if ex = ApiException 404 then Inr None else Inl ex),
         \<lparr>cluster = c', calls = calls w @ [DeleteDeployment name ns]\<rparr>))
   \<and> (delete_namespaced_service api name ns (cluster w) = (r, c') \<longrightarrow>
      teardown_service api name ns w =
        ((case r of
            Inr st \<Rightarrow> Inr (Some st)
          | Inl ex \<Rightarrow> if ex = ApiException 404 then Inr None else Inl ex),
         \<lparr>cluster = c', calls = calls w @ [DeleteService name ns]\<rparr>))"
  by (auto simp: teardown_deployment_def teardown_service_def mutating_call_def
      split: sum.splits error.splits)

theorem teardown_absent_is_success_witness:
  "teardown_deployment sim_api ''redis'' ''default'' empty_world =
     (Inr None, \<lparr>cluster = ([], []), calls = [DeleteDeployment ''redis'' ''default'']\<rparr>)
   \<and> teardown_service sim_api ''redis'' ''default'' empty_world =
     (Inr None, \<lparr>cluster = ([], []), calls = [DeleteService ''redis'' ''default'']\<rparr>)
   \<and> teardown_deployment (failing_api 500) ''redis'' ''default'' unit_world =
     (Inl (ApiException 500), \<lparr>cluster = (), calls = [DeleteDeployment ''redis'' ''default'']\<rparr>)
   \<and> teardown_service (failing_api 500) ''redis'' ''default'' unit_world =
     (Inl (ApiException 500), \<lparr>cluster = (), calls = [DeleteService ''redis'' ''default'']\<rparr>)"
  using teardown_absent_is_success
      [of sim_api "''redis''" "''default''" empty_world "Inl (ApiException 404)" "([], [])"]
    teardown_absent_is_success
      [of "failing_api 500" "''redis''" "''default''" unit_world "Inl (ApiException 500)" "()"]
  by (simp add: sim_api_def failing_api_def empty_world_def unit_world_def)

section \<open>The calls a handler makes\<close>

text \<open>
  Each function extends the recorded calls; a property that holds of every call a create
  sequence can make, of the listing and of the two redis deletes holds of every call added.
\<close>

lemma create_deployment_and_service_emits:
  assumes run: "create_deployment_and_service rt api name ns repo tag replicas res port env w = (r, w')"
    and P: "\<And>c. create_sequence_call rt c \<Longrightarrow> P c"
  shows "\<exists>cs. calls w' = calls w @ cs \<and> list_all P cs"
proof (cases port)
  case None
  with run have "w' = w" by (simp add: create_deployment_and_service_def)
  then show ?thesis by simp
next
  case (Some p)
  from create_deployment_and_service_calls [OF run [unfolded Some] refl refl]
  obtain cs where cs: "calls w' = calls w @ CreateDeployment
        (adopt_deployment rt (create_deployment_object rt name ns repo tag replicas res [p] env)) ns # cs"
    and sub: "set cs \<subseteq> {PatchDeployment name ns
        (adopt_deployment rt (create_deployment_object rt name ns repo tag replicas res [p] env)),
      CreateService (adopt_service rt (built_service_object name ns p)) ns,
      PatchService name ns (adopt_service rt (built_service_object name ns p))}"
    by blast
  have "\<forall>c\<in>set cs. P c"
    using sub by (auto intro!: P create_sequence_call.intros)
  moreover have "P (CreateDeployment
        (adopt_deployment rt (create_deployment_object rt name ns repo tag replicas res [p] env)) ns)"
    by (rule P) (rule create_sequence_call.intros)
  ultimately show ?thesis using cs by (simp add: list_all_iff)
qed

lemma create_redis_emits:
  assumes "create_redis_deployment_and_service rt api ns spec w = (r, w')"
    and "\<And>c. create_sequence_call rt c \<Longrightarrow> P c"
  shows "\<exists>cs. calls w' = calls w @ cs \<and> list_all P cs"
  using assms unfolding create_redis_deployment_and_service_def
  by (rule create_deployment_and_service_emits)

lemma lift_and_then_cases:
  assumes "and_then (lift v) f w = (r, w')"
  obtains (raised) e where "v = Inl e" "r = Inl e" "w' = w"
        | (went_on) x where "v = Inr x" "f x w = (r, w')"
  using assms by (cases v) (auto simp: and_then_def lift_def)

lemma create_podinfo_emits:
  assumes run: "create_podinfo_deployment_and_service rt api ns spec w = (r, w')"
    and P: "\<And>c. create_sequence_call rt c \<Longrightarrow> P c"
  shows "\<exists>cs. calls w' = calls w @ cs \<and> list_all P cs"
  using run unfolding create_podinfo_deployment_and_service_def
  by (elim lift_and_then_cases) (auto dest: create_deployment_and_service_emits [where P = P] intro: P)

lemma emits_and_then:
  assumes run: "and_then m f w = (r, w')"
    and m: "\<And>x w1. m w = (x, w1) \<Longrightarrow> \<exists>cs. calls w1 = calls w @ cs \<and> list_all P cs"
    and f: "\<And>x w1 r w'. f x w1 = (r, w') \<Longrightarrow> \<exists>cs. calls w' = calls w1 @ cs \<and> list_all P cs"
  shows "\<exists>cs. calls w' = calls w @ cs \<and> list_all P cs"
  using run
proof (cases rule: and_then_cases)
  case (raised e)
  then show ?thesis using m by blast
next
  case (went_on x w1)
  from m [OF went_on(1)] obtain cs1 where "calls w1 = calls w @ cs1" "list_all P cs1" by blast
  moreover from f [OF went_on(2)] obtain cs2 where "calls w' = calls w1 @ cs2" "list_all P cs2" by blast
  ultimately have "calls w' = calls w @ (cs1 @ cs2) \<and> list_all P (cs1 @ cs2)" by simp
  then show ?thesis by blast
qed

lemma lift_emits:
  "lift v w = (r, w') \<Longrightarrow> \<exists>cs. calls w' = calls w @ cs \<and> list_all P cs"
  by (auto simp: lift_def)

lemma on_create_emits:
  assumes run: "on_create rt api ns spec w = (r, w')"
    and P: "\<And>c. create_sequence_call rt c \<Longrightarrow> P c"
  shows "\<exists>cs. calls w' = calls w @ cs \<and> list_all P cs"
  using run unfolding on_create_def
  apply (rule emits_and_then)
   apply (erule lift_emits)
  apply (erule emits_and_then)
   apply (erule create_podinfo_emits, erule P)
  apply (erule emits_and_then)
   apply (auto split: if_splits dest: create_redis_emits [where P = P] lift_emits [where P = P] intro: P)
  done

lemma get_deployment_world:
  "get_deployment api name ns w = (r, w') \<Longrightarrow> w' = record_call (ListDeployments ns) w"
  by (auto simp: get_deployment_def split: sum.splits)

lemma get_deployment_emits:
  assumes "get_deployment api name ns w = (r, w')" and "P (ListDeployments ns)"
  shows "\<exists>cs. calls w' = calls w @ cs \<and> list_all P cs"
  using get_deployment_world [OF assms(1)] assms(2) by (simp add: record_call_def)

lemma teardown_deployment_emits:
  assumes "teardown_deployment api name ns w = (r, w')" and "P (DeleteDeployment name ns)"
  shows "\<exists>cs. calls w' = calls w @ cs \<and> list_all P cs"
  using assms
  by (auto simp: teardown_deployment_def split: prod.splits sum.splits error.splits if_splits
      dest!: mutating_call_calls)

lemma teardown_service_emits:
  assumes "teardown_service api name ns w = (r, w')" and "P (DeleteService name ns)"
  shows "\<exists>cs. calls w' = calls w @ cs \<and> list_all P cs"
  using assms
  by (auto simp: teardown_service_def split: prod.splits sum.splits error.splits if_splits
      dest!: mutating_call_calls)

lemma podinfo_policy_emits:
  assumes run: "podinfo_policy rt api ns spec new_status w = (r, w')"
    and P: "\<And>c. create_sequence_call rt c \<Longrightarrow> P c"
    and L: "P (ListDeployments ns)"
  shows "\<exists>cs. calls w' = calls w @ cs \<and> list_all P cs"
  using run unfolding podinfo_policy_def
  apply (rule emits_and_then)
   apply (erule get_deployment_emits, rule L)
  apply (simp split: option.splits)
   apply (erule lift_emits)
  apply (erule emits_and_then)
   apply (erule create_podinfo_emits, erule P)
  apply (erule lift_emits)
  done

lemma redis_policy_emits:
  assumes run: "redis_policy rt api ns spec field new_val new_status w = (r, w')"
    and P: "\<And>c. create_sequence_call rt c \<Longrightarrow> P c"
    and L: "P (ListDeployments ns)"
    and D: "P (DeleteDeployment ''redis'' ns)" "P (DeleteService ''redis'' ns)"
  shows "\<exists>cs. calls w' = calls w @ cs \<and> list_all P cs"
proof (cases "truthy (if [''spec'', ''redis'', ''enabled''] = field then new_val else JBool False)")
  case True
  with run have "and_then (get_deployment api ''redis'' ns) (\<lambda>found.
                case found of
                  None \<Rightarrow>
                    and_then (create_redis_deployment_and_service rt api ns spec)
                      (\<lambda>redis_status. lift (py_update new_status ''redis'' redis_status))
                | Some d \<Rightarrow> lift (Inr new_status)) w = (r, w')"
    by (simp add: redis_policy_def Let_def)
  then show ?thesis
    apply (rule emits_and_then)
     apply (erule get_deployment_emits, rule L)
    apply (simp split: option.splits)
     apply (erule emits_and_then)
      apply (erule create_redis_emits, erule P)
     apply (erule lift_emits)
    apply (erule lift_emits)
    done
next
  case False
  with run have "and_then (teardown_deployment api ''redis'' ns) (\<lambda>_.
              and_then (teardown_service api ''redis'' ns) (\<lambda>_.
                lift (Inr new_status))) w = (r, w')"
    by (simp add: redis_policy_def Let_def)
  then show ?thesis
    apply (rule emits_and_then)
     apply (erule teardown_deployment_emits, rule D)
    apply (erule emits_and_then)
     apply (erule teardown_service_emits, rule D)
    apply (erule lift_emits)
    done
qed

lemma on_update_entry_emits:
  assumes run: "on_update_entry rt api ns spec entry new_status w = (r, w')"
    and P: "\<And>c. create_sequence_call rt c \<Longrightarrow> P c"
    and L: "P (ListDeployments ns)"
    and D: "P (DeleteDeployment ''redis'' ns)" "P (DeleteService ''redis'' ns)"
  shows "\<exists>cs. calls w' = calls w @ cs \<and> list_all P cs"
proof -
  obtain oper field old_val new_val where entry: "entry = (oper, field, old_val, new_val)"
    by (cases entry) auto
  show ?thesis
  proof (cases "''redis'' \<in> set field")
    case True
    with run entry have "redis_policy rt api ns spec field new_val new_status w = (r, w')" by simp
    then show ?thesis by (rule redis_policy_emits) (rule P L D | assumption)+
  next
    case False
    with run entry have "podinfo_policy rt api ns spec new_status w = (r, w')" by simp
    then show ?thesis by (rule podinfo_policy_emits) (rule P L | assumption)+
  qed
qed

lemma on_update_loop_emits:
  assumes run: "on_update_loop rt api ns spec diff new_status w = (r, w')"
    and P: "\<And>c. create_sequence_call rt c \<Longrightarrow> P c"
    and L: "P (ListDeployments ns)"
    and D: "P (DeleteDeployment ''redis'' ns)" "P (DeleteService ''redis'' ns)"
  shows "\<exists>cs. calls w' = calls w @ cs \<and> list_all P cs"
  using run
proof (induction diff arbitrary: new_status w)
  case Nil
  then show ?case by simp
next
  case (Cons entry diff)
  obtain r1 w1 where step: "on_update_entry rt api ns spec entry new_status w = (r1, w1)"
    by (cases "on_update_entry rt api ns spec entry new_status w") auto
  from on_update_entry_emits [OF step P L D]
  obtain cs1 where cs1: "calls w1 = calls w @ cs1" "list_all P cs1" by blast
  show ?case
  proof (cases r1)
    case (Inl ex)
    with Cons.prems step have "w' = w1" by simp
    with cs1 show ?thesis by blast
  next
    case (Inr s1)
    with Cons.prems step have "on_update_loop rt api ns spec diff s1 w1 = (r, w')" by simp
    from Cons.IH [OF this] obtain cs2 where "calls w' = calls w1 @ cs2" "list_all P cs2" by blast
    with cs1 have "calls w' = calls w @ (cs1 @ cs2) \<and> list_all P (cs1 @ cs2)" by simp
    then show ?thesis by blast
  qed
qed

lemma on_update_emits:
  assumes run: "on_update rt api ns spec status diff w = (r, w')"
    and P: "\<And>c. create_sequence_call rt c \<Longrightarrow> P c"
    and L: "P (ListDeployments ns)"
    and D: "P (DeleteDeployment ''redis'' ns)" "P (DeleteService ''redis'' ns)"
  shows "\<exists>cs. calls w' = calls w @ cs \<and> list_all P cs"
proof -
  consider (failed) "w' = w"
    | (looped) new_status where "on_update_loop rt api ns spec diff new_status w = (r, w')"
    using run by (auto simp: on_update_def split: sum.splits)
  then show ?thesis
  proof cases
    case failed
    then show ?thesis by simp
  next
    case looped
    then show ?thesis by (rule on_update_loop_emits) (rule P L D | assumption)+
  qed
qed

section \<open>Running the handlers on the small cluster\<close>

lemmas run_defs = on_create_def create_podinfo_deployment_and_service_def
  create_redis_deployment_and_service_def create_deployment_and_service_def
  create_or_update_deployment_def create_or_update_service_def mutating_call_def
  and_then_def lift_def podinfo_env_vars_def default_env_vars_def dict_get_def
  mapping_getitem_def child_status_def sim_api_def sim_runtime_def empty_world_def
  example_spec_def create_deployment_object_def create_service_object_def
  deployment_name_def service_name_def stamp_meta_def add_owner_def empty_meta_def
  PODINFO_DEPLOYMENT_NAME_def REDIS_DEPLOYMENT_NAME_def PODINFO_PORT_def REDIS_PORT_def
  redis_resources_def Let_def

lemma sim_runtime_adopts:
  "\<forall>d. has_owner parent (d_metadata (adopt_deployment sim_runtime d))"
  "\<forall>s. has_owner parent (s_metadata (adopt_service sim_runtime s))"
  by (simp_all add: sim_runtime_def has_owner_def add_owner_def Let_def)

lemma on_create_example_calls:
  "map is_create_or_patch
     (calls (snd (on_create sim_runtime sim_api ''default'' example_spec empty_world)))
   = [True, True, True, True]"
  by (simp add: run_defs)

section \<open>Adoption\<close>

lemma owned_of_create_sequence_call:
  assumes "\<forall>d. has_owner owner (d_metadata (adopt_deployment rt d))"
    and "\<forall>s. has_owner owner (s_metadata (adopt_service rt s))"
    and "create_sequence_call rt c"
  shows "call_body_owned owner c"
  using assms(3,1,2) by cases simp_all

lemma new_calls_drop:
  "calls w' = calls w @ cs \<Longrightarrow> drop (length (calls w)) (calls w') = cs"
  by simp

text \<open>
  C8. A create sequence sends to the cluster only adopted objects: its first call is the
  create of the adopted Deployment, and every later call is the patch of that adopted
  Deployment, the create of the adopted Service or its patch; the objects are adopted before
  the first call. Hence, when \<open>kopf.adopt\<close> puts the owner reference of the parent on the
  object it is given, every create and patch call that the Create handler and the Update
  handler make carries a body with that owner reference.
\<close>

theorem children_adopted_before_create_or_update:
  assumes "\<forall>d. has_owner owner (d_metadata (adopt_deployment rt d))"
    and "\<forall>s. has_owner owner (s_metadata (adopt_service rt s))"
  shows "(create_deployment_and_service rt api name ns repo tag replicas res (Some port) env w = (r, w') \<longrightarrow>
            (\<exists>cs. calls w' = calls w @
                CreateDeployment (adopt_deployment rt
                  (create_deployment_object rt name ns repo tag replicas res [port] env)) ns # cs
              \<and> set cs \<subseteq>
                {PatchDeployment name ns (adopt_deployment rt
                   (create_deployment_object rt name ns repo tag replicas res [port] env)),
                 CreateService (adopt_service rt (built_service_object name ns port)) ns,
                 PatchService name ns (adopt_service rt (built_service_object name ns port))}))
       \<and> (on_create rt api ns spec w = (r, w') \<longrightarrow>
            list_all (call_body_owned owner) (drop (length (calls w)) (calls w')))
       \<and> (on_update rt api ns spec status diff w = (r, w') \<longrightarrow>
            list_all (call_body_owned owner) (drop (length (calls w)) (calls w')))"
proof (intro conjI impI)
  assume "create_deployment_and_service rt api name ns repo tag replicas res (Some port) env w = (r, w')"
  from create_deployment_and_service_calls [OF this refl refl]
  show "\<exists>cs. calls w' = calls w @
                CreateDeployment (adopt_deployment rt
                  (create_deployment_object rt name ns repo tag replicas res [port] env)) ns # cs
              \<and> set cs \<subseteq>
                {PatchDeployment name ns (adopt_deployment rt
                   (create_deployment_object rt name ns repo tag replicas res [port] env)),
                 CreateService (adopt_service rt (built_service_object name ns port)) ns,
                 PatchService name ns (adopt_service rt (built_service_object name ns port))}" .
next
  assume "on_create rt api ns spec w = (r, w')"
  then have "\<exists>cs. calls w' = calls w @ cs \<and> list_all (call_body_owned owner) cs"
    by (rule on_create_emits) (rule owned_of_create_sequence_call [OF assms])
  then show "list_all (call_body_owned owner) (drop (length (calls w)) (calls w'))"
    by (auto simp: new_calls_drop)
next
  assume "on_update rt api ns spec status diff w = (r, w')"
  then have "\<exists>cs. calls w' = calls w @ cs \<and> list_all (call_body_owned owner) cs"
    by (rule on_update_emits) (simp_all add: owned_of_create_sequence_call [OF assms])
  then show "list_all (call_body_owned owner) (drop (length (calls w)) (calls w'))"
    by (auto simp: new_calls_drop)
qed

theorem children_adopted_before_create_or_update_witness:
  "list_all (call_body_owned parent)
     (calls (snd (on_create sim_runtime sim_api ''default'' example_spec empty_world)))
   \<and> map is_create_or_patch
       (calls (snd (on_create sim_runtime sim_api ''default'' example_spec empty_world)))
     = [True, True, True, True]"
  using children_adopted_before_create_or_update [OF sim_runtime_adopts,
      where api = sim_api and ns = "''default''" and spec = example_spec and w = empty_world
        and r = "fst (on_create sim_runtime sim_api ''default'' example_spec empty_world)"
        and w' = "snd (on_create sim_runtime sim_api ''default'' example_spec empty_world)"]
    on_create_example_calls
  by (simp add: empty_world_def)

section \<open>Create or update\<close>

text \<open>
  C1. At a cluster whose create call raises \<open>ApiException\<close> with status 500,
  \<open>create_or_update_deployment\<close> and \<open>create_or_update_service\<close> make the create call, make
  no patch call, and raise \<open>UnboundLocalError\<close> for the local that was never assigned: the
  exception of the cluster does not reach the caller.
\<close>

theorem create_or_update_masks_cluster_error:
  "create_or_update_deployment (failing_api 500) ''redis''
       (redis_deployment_object sim_runtime ''default'') ''default'' unit_world
     = (Inl (UnboundLocalError ''deployment''),
        \<lparr>cluster = (),
         calls = [CreateDeployment (redis_deployment_object sim_runtime ''default'') ''default'']\<rparr>)
   \<and> create_or_update_service (failing_api 500) ''redis''
       (built_service_object ''redis'' ''default'' 6379) ''default'' unit_world
     = (Inl (UnboundLocalError ''service''),
        \<lparr>cluster = (),
         calls = [CreateService (built_service_object ''redis'' ''default'' 6379) ''default'']\<rparr>)"
  by (simp add: create_or_update_deployment_def create_or_update_service_def mutating_call_def
      failing_api_def unit_world_def)

section \<open>The Update handler reads the status recorded by Create\<close>

text \<open>
  C10. When the status has no key \<open>on_create\<close>, or its \<open>on_create\<close> entry is a dict without
  the key \<open>children\<close>, the Update handler raises \<open>KeyError\<close> for that key; the cluster and
  the recorded calls are as they were, so no entry of the diff was processed.
\<close>

theorem on_update_needs_create_status:
  "(map_of status ''on_create'' = None \<longrightarrow>
      on_update rt api ns spec status diff w = (Inl (KeyError ''on_create''), w))
   \<and> (map_of status ''on_create'' = Some (JDict on_create_status)
        \<and> map_of on_create_status ''children'' = None \<longrightarrow>
      on_update rt api ns spec status diff w = (Inl (KeyError ''children''), w))"
  by (simp add: on_update_def mapping_getitem_def)

theorem on_update_needs_create_status_witness:
  "on_update sim_runtime sim_api ''default'' example_spec []
       [(''change'', [''spec'', ''replicaCount''], JInt 1, JInt 2)] empty_world
     = (Inl (KeyError ''on_create''), empty_world)
   \<and> on_update sim_runtime sim_api ''default'' example_spec [(''on_create'', JDict [])]
       [(''change'', [''spec'', ''replicaCount''], JInt 1, JInt 2)] empty_world
     = (Inl (KeyError ''children''), empty_world)"
  using on_update_needs_create_status [of "[]" sim_runtime sim_api "''default''" example_spec
      "[(''change'', [''spec'', ''replicaCount''], JInt 1, JInt 2)]" empty_world "[]"]
    on_update_needs_create_status [of "[(''on_create'', JDict [])]" sim_runtime sim_api
      "''default''" example_spec
      "[(''change'', [''spec'', ''replicaCount''], JInt 1, JInt 2)]" empty_world "[]"]
  by simp

section \<open>The Update handler, one diff entry\<close>

lemma not_delete_of_create_sequence_call:
  "create_sequence_call rt c \<Longrightarrow> \<not> is_delete c"
  by (erule create_sequence_call.cases) simp_all

lemma find_deployment_absent:
  "list_all (\<lambda>d. d_metadata d \<noteq> None \<and> deployment_name d \<noteq> Some name) items
     \<Longrightarrow> find_deployment name items = Inr None"
  by (induction items) (auto simp: deployment_name_def split: option.splits)

lemmas update_defs = redis_policy_def podinfo_policy_def get_deployment_def record_call_def
  teardown_deployment_def teardown_service_def world_with_def named_deployment_def

text \<open>
  C2 (as amended). An entry of the diff goes to the redis branch exactly when one segment
  of its field path is equal to \<open>redis\<close>, and to the podinfo branch otherwise; an entry
  that goes to the podinfo branch makes no delete call.
\<close>

theorem redis_branch_iff_some_segment_is_redis:
  "on_update_entry rt api ns spec (oper, field, old_val, new_val) new_status w =
     (if list_ex (\<lambda>segment. segment = ''redis'') field
      then redis_policy rt api ns spec field new_val new_status w
      else podinfo_policy rt api ns spec new_status w)
   \<and> (on_update_entry rt api ns spec (oper, field, old_val, new_val) new_status w = (r, w')
        \<and> \<not> list_ex (\<lambda>segment. segment = ''redis'') field \<longrightarrow>
      list_all (\<lambda>c. \<not> is_delete c) (drop (length (calls w)) (calls w')))"
proof (intro conjI impI)
  show "on_update_entry rt api ns spec (oper, field, old_val, new_val) new_status w =
     (if list_ex (\<lambda>segment. segment = ''redis'') field
      then redis_policy rt api ns spec field new_val new_status w
      else podinfo_policy rt api ns spec new_status w)"
    by (auto simp: list_ex_iff)
next
  assume a: "on_update_entry rt api ns spec (oper, field, old_val, new_val) new_status w = (r, w')
        \<and> \<not> list_ex (\<lambda>segment. segment = ''redis'') field"
  then have "podinfo_policy rt api ns spec new_status w = (r, w')"
    by (auto simp: list_ex_iff)
  then have "\<exists>cs. calls w' = calls w @ cs \<and> list_all (\<lambda>c. \<not> is_delete c) cs"
    by (rule podinfo_policy_emits) (simp_all add: not_delete_of_create_sequence_call)
  then show "list_all (\<lambda>c. \<not> is_delete c) (drop (length (calls w)) (calls w'))"
    by (auto simp: new_calls_drop)
qed

theorem redis_branch_iff_some_segment_is_redis_witness:
  "on_update_entry sim_runtime sim_api ''default'' example_spec
       (''change'', [''spec'', ''redisConfig''], JNone, JBool False) (JDict []) (world_with ''redis'')
     = podinfo_policy sim_runtime sim_api ''default'' example_spec (JDict []) (world_with ''redis'')
   \<and> list_all (\<lambda>c. \<not> is_delete c)
       (calls (snd (on_update_entry sim_runtime sim_api ''default'' example_spec
          (''change'', [''spec'', ''redisConfig''], JNone, JBool False) (JDict [])
          (world_with ''redis''))))"
  using redis_branch_iff_some_segment_is_redis [where rt = sim_runtime and api = sim_api
      and ns = "''default''" and spec = example_spec and oper = "''change''"
      and field = "[''spec'', ''redisConfig'']" and old_val = JNone and new_val = "JBool False"
      and new_status = "JDict []" and w = "world_with ''redis''"
      and r = "fst (on_update_entry sim_runtime sim_api ''default'' example_spec
          (''change'', [''spec'', ''redisConfig''], JNone, JBool False) (JDict [])
          (world_with ''redis''))"
      and w' = "snd (on_update_entry sim_runtime sim_api ''default'' example_spec
          (''change'', [''spec'', ''redisConfig''], JNone, JBool False) (JDict [])
          (world_with ''redis''))"]
  by (simp add: world_with_def)

text \<open>
  C2, the claim as stated, fails: \<open>redis\<close> is a substring of the segment \<open>redisConfig\<close>, yet an
  entry with the path \<open>(spec, redisConfig)\<close> is handled by the podinfo branch: only the
  deployments are listed and the live redis Deployment stays, where the redis branch would
  have deleted it.
\<close>

theorem substring_segment_goes_to_podinfo_branch:
  "loosely_mentions_redis [''spec'', ''redisConfig'']
   \<and> on_update_entry sim_runtime sim_api ''default'' example_spec
       (''change'', [''spec'', ''redisConfig''], JNone, JBool False) (JDict []) (world_with ''redis'')
     = (Inr (JDict []),
        \<lparr>cluster = ([named_deployment ''redis''], []), calls = [ListDeployments ''default'']\<rparr>)
   \<and> redis_policy sim_runtime sim_api ''default'' example_spec
       [''spec'', ''redisConfig''] (JBool False) (JDict []) (world_with ''redis'')
     = (Inr (JDict []),
        \<lparr>cluster = ([], []),
         calls = [DeleteDeployment ''redis'' ''default'', DeleteService ''redis'' ''default'']\<rparr>)"
  by (simp add: loosely_mentions_redis_def sublist_code prefix_code update_defs run_defs)

lemma str_of_nat_zero: "str_of_nat 0 = ''0''"
  by code_simp

lemma create_redis_first_call:
  "\<exists>cs. calls (snd (create_redis_deployment_and_service rt api ns spec w)) =
     calls w @ CreateDeployment (adopt_deployment rt (redis_deployment_object rt ns)) ns # cs"
proof -
  obtain r w' where run: "create_redis_deployment_and_service rt api ns spec w = (r, w')"
    by (cases "create_redis_deployment_and_service rt api ns spec w") auto
  from create_deployment_and_service_calls [OF run [unfolded create_redis_deployment_and_service_def] refl refl]
  show ?thesis
    by (auto simp: run redis_deployment_object_def REDIS_DEPLOYMENT_NAME_def REDIS_PORT_def)
qed

text \<open>
  C3. For a diff entry whose field path is \<open>(spec, redis, enabled)\<close> and whose new value is
  true: when \<open>get_deployment\<close> finds no Deployment named \<open>redis\<close>, the redis create sequence
  runs (its first call creates the adopted redis Deployment) and the status it returns is
  stored under the key \<open>redis\<close> of the children map; when a redis Deployment is found, the
  entry makes no call besides the listing, leaves the cluster as it is and returns the
  children map unchanged.
\<close>

theorem enabling_redis_creates_unless_present:
  assumes "truthy new_val"
  shows "(get_deployment api ''redis'' ns w = (Inr None, wl) \<longrightarrow>
            on_update_entry rt api ns spec
                (oper, [''spec'', ''redis'', ''enabled''], old_val, new_val) (JDict children) w =
              (case create_redis_deployment_and_service rt api ns spec wl of
                 (Inl ex, wd) \<Rightarrow> (Inl ex, wd)
               | (Inr redis_status, wd) \<Rightarrow>
                   (Inr (JDict (AList.update ''redis'' redis_status children)), wd))
            \<and> (\<exists>cs. calls (snd (create_redis_deployment_and_service rt api ns spec wl)) =
                  calls w @ ListDeployments ns
                    # CreateDeployment (adopt_deployment rt (redis_deployment_object rt ns)) ns # cs))
       \<and> (get_deployment api ''redis'' ns w = (Inr (Some d), wl) \<longrightarrow>
            on_update_entry rt api ns spec
                (oper, [''spec'', ''redis'', ''enabled''], old_val, new_val) (JDict children) w =
              (Inr (JDict children), wl)
            \<and> cluster wl = cluster w \<and> calls wl = calls w @ [ListDeployments ns])"
proof (intro conjI impI)
  assume g: "get_deployment api ''redis'' ns w = (Inr None, wl)"
  show "on_update_entry rt api ns spec
          (oper, [''spec'', ''redis'', ''enabled''], old_val, new_val) (JDict children) w =
        (case create_redis_deployment_and_service rt api ns spec wl of
           (Inl ex, wd) \<Rightarrow> (Inl ex, wd)
         | (Inr redis_status, wd) \<Rightarrow>
             (Inr (JDict (AList.update ''redis'' redis_status children)), wd))"
    using assms g by (simp add: redis_policy_def and_then_def lift_def split: prod.splits sum.splits)
  from get_deployment_world [OF g] have "calls wl = calls w @ [ListDeployments ns]"
    by (simp add: record_call_def)
  with create_redis_first_call [of rt api ns spec wl]
  show "\<exists>cs. calls (snd (create_redis_deployment_and_service rt api ns spec wl)) =
          calls w @ ListDeployments ns
            # CreateDeployment (adopt_deployment rt (redis_deployment_object rt ns)) ns # cs"
    by auto
next
  assume g: "get_deployment api ''redis'' ns w = (Inr (Some d), wl)"
  show "on_update_entry rt api ns spec
          (oper, [''spec'', ''redis'', ''enabled''], old_val, new_val) (JDict children) w =
        (Inr (JDict children), wl)"
    using assms g by (simp add: redis_policy_def and_then_def lift_def)
  from get_deployment_world [OF g]
  show "cluster wl = cluster w" and "calls wl = calls w @ [ListDeployments ns]"
    by (simp_all add: record_call_def)
qed

theorem enabling_redis_creates_unless_present_witness:
  "on_update_entry sim_runtime sim_api ''default'' example_spec
       (''change'', [''spec'', ''redis'', ''enabled''], JBool False, JBool True) (JDict [])
       empty_world
     = (Inr (JDict [(''redis'',
          JDict [(''created_on'', JStr ''t0''), (''uid'', JStr ''uid-redis'')])]),
        snd (create_redis_deployment_and_service sim_runtime sim_api ''default'' example_spec
          \<lparr>cluster = ([], []), calls = [ListDeployments ''default'']\<rparr>))
   \<and> on_update_entry sim_runtime sim_api ''default'' example_spec
       (''change'', [''spec'', ''redis'', ''enabled''], JBool False, JBool True) (JDict [])
       (world_with ''redis'')
     = (Inr (JDict []),
        \<lparr>cluster = ([named_deployment ''redis''], []), calls = [ListDeployments ''default'']\<rparr>)"
proof -
  have t: "truthy (JBool True)" by simp
  have absent: "get_deployment sim_api ''redis'' ''default'' empty_world =
      (Inr None, \<lparr>cluster = ([], []), calls = [ListDeployments ''default'']\<rparr>)"
    by (simp add: update_defs run_defs)
  have present: "get_deployment sim_api ''redis'' ''default'' (world_with ''redis'') =
      (Inr (Some (named_deployment ''redis'')),
       \<lparr>cluster = ([named_deployment ''redis''], []), calls = [ListDeployments ''default'']\<rparr>)"
    by (simp add: update_defs run_defs)
  have created: "fst (create_redis_deployment_and_service sim_runtime sim_api ''default''
        example_spec \<lparr>cluster = ([], []), calls = [ListDeployments ''default'']\<rparr>) =
      Inr (JDict [(''created_on'', JStr ''t0''), (''uid'', JStr ''uid-redis'')])"
    by (simp add: run_defs str_of_nat_zero)
  from enabling_redis_creates_unless_present [OF t, where api = sim_api and ns = "''default''"
      and w = empty_world and wl = "\<lparr>cluster = ([], []), calls = [ListDeployments ''default'']\<rparr>"
      and rt = sim_runtime and spec = example_spec and oper = "''change''"
      and old_val = "JBool False" and children = "[]"]
    enabling_redis_creates_unless_present [OF t, where api = sim_api and ns = "''default''"
      and w = "world_with ''redis''" and d = "named_deployment ''redis''"
      and wl = "\<lparr>cluster = ([named_deployment ''redis''], []), calls = [ListDeployments ''default'']\<rparr>"
      and rt = sim_runtime and spec = example_spec and oper = "''change''"
      and old_val = "JBool False" and children = "[]"]
    absent present created
  show ?thesis
    by (auto split: prod.splits sum.splits)
qed

lemma get_deployment_absent:
  assumes "list_namespaced_deployment api ns (cluster w) = Inr items"
    and "list_all (\<lambda>d. d_metadata d \<noteq> None \<and> deployment_name d \<noteq> Some name) items"
  shows "get_deployment api name ns w = (Inr None, record_call (ListDeployments ns) w)"
  using assms by (simp add: get_deployment_def find_deployment_absent)

text \<open>
  C4. For a diff entry whose field path has no segment \<open>redis\<close>: when the namespace lists
  no Deployment named \<open>podinfo\<close> (\<open>get_deployment\<close> returns \<open>None\<close>), the entry makes the
  listing call and nothing else: no create, patch or delete call, the cluster is as it was
  and the children map is returned unchanged. The podinfo create sequence runs only when
  \<open>get_deployment\<close> finds a Deployment named \<open>podinfo\<close>; its status is then stored under
  the key \<open>podInfo\<close>.
\<close>

theorem podinfo_update_only_when_present:
  assumes "''redis'' \<notin> set field"
  shows "(list_namespaced_deployment api ns (cluster w) = Inr items
            \<and> list_all (\<lambda>d. d_metadata d \<noteq> None \<and> deployment_name d \<noteq> Some ''podinfo'') items \<longrightarrow>
            get_deployment api ''podinfo'' ns w = (Inr None, record_call (ListDeployments ns) w))
       \<and> (get_deployment api ''podinfo'' ns w = (Inr None, wl) \<longrightarrow>
            on_update_entry rt api ns spec (oper, field, old_val, new_val) new_status w =
              (Inr new_status, wl)
            \<and> cluster wl = cluster w \<and> calls wl = calls w @ [ListDeployments ns])
       \<and> (get_deployment api ''podinfo'' ns w = (Inr (Some d), wl) \<longrightarrow>
            on_update_entry rt api ns spec (oper, field, old_val, new_val) new_status w =
              (case create_podinfo_deployment_and_service rt api ns spec wl of
                 (Inl ex, wd) \<Rightarrow> (Inl ex, wd)
               | (Inr podinfo_status, wd) \<Rightarrow> (py_update new_status ''podInfo'' podinfo_status, wd)))"
proof (intro conjI impI)
  assume "list_namespaced_deployment api ns (cluster w) = Inr items
            \<and> list_all (\<lambda>d. d_metadata d \<noteq> None \<and> deployment_name d \<noteq> Some ''podinfo'') items"
  then show "get_deployment api ''podinfo'' ns w = (Inr None, record_call (ListDeployments ns) w)"
    by (simp add: get_deployment_absent)
next
  assume g: "get_deployment api ''podinfo'' ns w = (Inr None, wl)"
  show "on_update_entry rt api ns spec (oper, field, old_val, new_val) new_status w =
          (Inr new_status, wl)"
    using assms g by (simp add: podinfo_policy_def and_then_def lift_def)
  from get_deployment_world [OF g]
  show "cluster wl = cluster w" and "calls wl = calls w @ [ListDeployments ns]"
    by (simp_all add: record_call_def)
next
  assume g: "get_deployment api ''podinfo'' ns w = (Inr (Some d), wl)"
  show "on_update_entry rt api ns spec (oper, field, old_val, new_val) new_status w =
          (case create_podinfo_deployment_and_service rt api ns spec wl of
             (Inl ex, wd) \<Rightarrow> (Inl ex, wd)
           | (Inr podinfo_status, wd) \<Rightarrow> (py_update new_status ''podInfo'' podinfo_status, wd))"
    using assms g
    by (simp add: podinfo_policy_def and_then_def lift_def split: prod.splits sum.splits)
qed

theorem podinfo_update_only_when_present_witness:
  "get_deployment sim_api ''podinfo'' ''default'' (world_with ''redis'')
     = (Inr None,
        \<lparr>cluster = ([named_deployment ''redis''], []), calls = [ListDeployments ''default'']\<rparr>)
   \<and> on_update_entry sim_runtime sim_api ''default'' example_spec
       (''change'', [''spec'', ''image'', ''tag''], JStr ''v1'', JStr ''v2'') (JDict [])
       (world_with ''redis'')
     = (Inr (JDict []),
        \<lparr>cluster = ([named_deployment ''redis''], []), calls = [ListDeployments ''default'']\<rparr>)
   \<and> fst (on_update_entry sim_runtime sim_api ''default'' example_spec
       (''change'', [''spec'', ''image'', ''tag''], JStr ''v1'', JStr ''v2'') (JDict [])
       (world_with ''podinfo''))
     = Inr (JDict [(''podInfo'',
         JDict [(''created_on'', JStr ''t0''), (''uid'', JStr ''uid-podinfo'')])])"
proof -
  have f: "''redis'' \<notin> set [''spec'', ''image'', ''tag'']" by simp
  have listed: "list_namespaced_deployment sim_api ''default'' (cluster (world_with ''redis''))
      = Inr [named_deployment ''redis'']"
    by (simp add: sim_api_def world_with_def)
  have others: "list_all (\<lambda>d. d_metadata d \<noteq> None \<and> deployment_name d \<noteq> Some ''podinfo'')
      [named_deployment ''redis'']"
    by (simp add: named_deployment_def deployment_name_def stamp_meta_def empty_meta_def)
  have logged: "record_call (ListDeployments ''default'') (world_with ''redis'') =
      \<lparr>cluster = ([named_deployment ''redis''], []), calls = [ListDeployments ''default'']\<rparr>"
    by (simp add: record_call_def world_with_def)
  have present: "get_deployment sim_api ''podinfo'' ''default'' (world_with ''podinfo'') =
      (Inr (Some (named_deployment ''podinfo'')),
       \<lparr>cluster = ([named_deployment ''podinfo''], []), calls = [ListDeployments ''default'']\<rparr>)"
    by (simp add: update_defs run_defs)
  have patched: "fst (create_podinfo_deployment_and_service sim_runtime sim_api ''default''
        example_spec
        \<lparr>cluster = ([named_deployment ''podinfo''], []), calls = [ListDeployments ''default'']\<rparr>) =
      Inr (JDict [(''created_on'', JStr ''t0''), (''uid'', JStr ''uid-podinfo'')])"
    by (simp add: run_defs named_deployment_def str_of_nat_zero)
  note t = podinfo_update_only_when_present [OF f, where api = sim_api and ns = "''default''"
      and rt = sim_runtime and spec = example_spec and oper = "''change''"
      and old_val = "JStr ''v1''" and new_val = "JStr ''v2''" and new_status = "JDict []"]
  from t [where w = "world_with ''redis''" and items = "[named_deployment ''redis'']"
      and wl = "\<lparr>cluster = ([named_deployment ''redis''], []), calls = [ListDeployments ''default'']\<rparr>"]
    t [where w = "world_with ''podinfo''" and d = "named_deployment ''podinfo''"
      and wl = "\<lparr>cluster = ([named_deployment ''podinfo''], []), calls = [ListDeployments ''default'']\<rparr>"]
    listed others logged present patched
  show ?thesis
    by (auto split: prod.splits sum.splits)
qed

section \<open>The environment of the podinfo container\<close>

lemma digit_chars:
  "digit_char 3 = CHR ''3''" "digit_char 6 = CHR ''6''"
  "digit_char 7 = CHR ''7''" "digit_char 9 = CHR ''9''"
  by code_simp+

lemma redis_port_rendered: "str_of_nat 6379 = ''6379''"
  by (simp add: str_of_nat.simps [of 6379] str_of_nat.simps [of 637] str_of_nat.simps [of 63]
      str_of_nat.simps [of 6] digit_chars)

lemma upper_example:
  "ascii_upper ''color'' = ''COLOR''" "ascii_upper ''message'' = ''MESSAGE''"
  by code_simp+

lemma default_env_vars_value:
  "default_env_vars =
     [\<lparr>ev_name = ''PODINFO_CACHE_SERVER'', ev_value = JStr ''tcp://redis:6379''\<rparr>]"
  by (simp add: default_env_vars_def REDIS_DEPLOYMENT_NAME_def REDIS_PORT_def redis_port_rendered)

lemma create_podinfo_cases:
  assumes run: "create_podinfo_deployment_and_service rt api ns spec w = (r, w')"
  obtains (failed) "w' = w"
    | (ran) env_vars image_repo image_tag cpu_request memory_limit
      where "podinfo_env_vars rt spec = Inr env_vars"
        and "create_deployment_and_service rt api ''podinfo'' ns image_repo image_tag
               (dict_get spec ''replicaCount'' JNone)
               \<lparr>rr_requests = [(''cpu'', cpu_request)], rr_limits = [(''memory'', memory_limit)]\<rparr>
               (Some 9898) (Some env_vars) w = (r, w')"
  using run unfolding create_podinfo_deployment_and_service_def PODINFO_DEPLOYMENT_NAME_def
    PODINFO_PORT_def
  by (elim lift_and_then_cases) blast+

lemma create_podinfo_first_call:
  assumes run: "create_podinfo_deployment_and_service rt api ns spec w = (r, w')"
    and called: "calls w' \<noteq> calls w"
  shows "\<exists>env_vars image_repo image_tag resources cs.
           podinfo_env_vars rt spec = Inr env_vars
         \<and> calls w' = calls w @ CreateDeployment (adopt_deployment rt
             (create_deployment_object rt ''podinfo'' ns image_repo image_tag
                (dict_get spec ''replicaCount'' JNone) resources [9898] (Some env_vars))) ns # cs"
  using run
proof (cases rule: create_podinfo_cases)
  case failed
  with called show ?thesis by simp
next
  case (ran env_vars image_repo image_tag cpu_request memory_limit)
  from create_deployment_and_service_calls [OF ran(2) refl refl] ran(1)
  show ?thesis by blast
qed

text \<open>
  C6. The environment list of the podinfo container is the fixed variable
  \<open>PODINFO_CACHE_SERVER\<close> with the value \<open>tcp://redis:6379\<close>, whatever the spec says about
  redis, followed by one variable per entry of \<open>spec.ui\<close>, in the order of the dict, named
  \<open>PODINFO_UI_\<close> and the key upper-cased by \<open>str.upper()\<close>, and carrying the entry's value;
  without a \<open>ui\<close> key the list is the fixed variable alone. This list is the environment of the container in
  the Deployment that the podinfo create sequence sends to the cluster.
\<close>

theorem podinfo_environment:
  "(map_of spec ''ui'' = None \<longrightarrow>
      podinfo_env_vars rt spec =
        Inr [\<lparr>ev_name = ''PODINFO_CACHE_SERVER'', ev_value = JStr ''tcp://redis:6379''\<rparr>])
   \<and> (map_of spec ''ui'' = Some (JDict ui) \<longrightarrow>
      podinfo_env_vars rt spec =
        Inr (\<lparr>ev_name = ''PODINFO_CACHE_SERVER'', ev_value = JStr ''tcp://redis:6379''\<rparr>
             # map (\<lambda>(k, v). \<lparr>ev_name = ''PODINFO_UI_'' @ str_upper rt k, ev_value = v\<rparr>) ui))
   \<and> (create_podinfo_deployment_and_service rt api ns spec w = (r, w') \<and> calls w' \<noteq> calls w \<longrightarrow>
      (\<exists>env_vars image_repo image_tag resources cs.
           podinfo_env_vars rt spec = Inr env_vars
         \<and> calls w' = calls w @ CreateDeployment (adopt_deployment rt
             (create_deployment_object rt ''podinfo'' ns image_repo image_tag
                (dict_get spec ''replicaCount'' JNone) resources [9898] (Some env_vars))) ns # cs))"
proof (intro conjI impI)
  assume "map_of spec ''ui'' = None"
  then show "podinfo_env_vars rt spec =
        Inr [\<lparr>ev_name = ''PODINFO_CACHE_SERVER'', ev_value = JStr ''tcp://redis:6379''\<rparr>]"
    by (simp add: podinfo_env_vars_def dict_get_def default_env_vars_value)
next
  assume "map_of spec ''ui'' = Some (JDict ui)"
  then show "podinfo_env_vars rt spec =
        Inr (\<lparr>ev_name = ''PODINFO_CACHE_SERVER'', ev_value = JStr ''tcp://redis:6379''\<rparr>
             # map (\<lambda>(k, v). \<lparr>ev_name = ''PODINFO_UI_'' @ str_upper rt k, ev_value = v\<rparr>) ui)"
    by (simp add: podinfo_env_vars_def dict_get_def default_env_vars_value)
next
  assume "create_podinfo_deployment_and_service rt api ns spec w = (r, w') \<and> calls w' \<noteq> calls w"
  then show "\<exists>env_vars image_repo image_tag resources cs.
           podinfo_env_vars rt spec = Inr env_vars
         \<and> calls w' = calls w @ CreateDeployment (adopt_deployment rt
             (create_deployment_object rt ''podinfo'' ns image_repo image_tag
                (dict_get spec ''replicaCount'' JNone) resources [9898] (Some env_vars))) ns # cs"
    using create_podinfo_first_call by blast
qed

theorem podinfo_environment_witness:
  "podinfo_env_vars sim_runtime [(''redis'', JDict [(''enabled'', JBool False)])] =
     Inr [\<lparr>ev_name = ''PODINFO_CACHE_SERVER'', ev_value = JStr ''tcp://redis:6379''\<rparr>]
   \<and> podinfo_env_vars sim_runtime example_spec =
     Inr [\<lparr>ev_name = ''PODINFO_CACHE_SERVER'', ev_value = JStr ''tcp://redis:6379''\<rparr>,
          \<lparr>ev_name = ''PODINFO_UI_COLOR'', ev_value = JStr ''blue''\<rparr>,
          \<lparr>ev_name = ''PODINFO_UI_MESSAGE'', ev_value = JStr ''hi''\<rparr>]
   \<and> map sent_env (calls (snd
        (create_podinfo_deployment_and_service sim_runtime sim_api ''default'' example_spec
           empty_world))) =
     [[Some [\<lparr>ev_name = ''PODINFO_CACHE_SERVER'', ev_value = JStr ''tcp://redis:6379''\<rparr>,
          \<lparr>ev_name = ''PODINFO_UI_COLOR'', ev_value = JStr ''blue''\<rparr>,
          \<lparr>ev_name = ''PODINFO_UI_MESSAGE'', ev_value = JStr ''hi''\<rparr>]], []]"
proof -
  have sent: "map sent_env (calls (snd
        (create_podinfo_deployment_and_service sim_runtime sim_api ''default'' example_spec
           empty_world))) =
     [[Some [\<lparr>ev_name = ''PODINFO_CACHE_SERVER'', ev_value = JStr ''tcp://redis:6379''\<rparr>,
          \<lparr>ev_name = ''PODINFO_UI_COLOR'', ev_value = JStr ''blue''\<rparr>,
          \<lparr>ev_name = ''PODINFO_UI_MESSAGE'', ev_value = JStr ''hi''\<rparr>]], []]"
    by (simp add: run_defs redis_port_rendered upper_example)
  note t = podinfo_environment [where rt = sim_runtime and api = sim_api and ns = "''default''"
      and w = empty_world and r = "Inl TypeError" and w' = empty_world]
  from t [where spec = "[(''redis'', JDict [(''enabled'', JBool False)])]" and ui = "[]"]
    t [where spec = example_spec
      and ui = "[(''color'', JStr ''blue''), (''message'', JStr ''hi'')]"]
    sent
  show ?thesis
    by (simp add: example_spec_def sim_runtime_def upper_example)
qed

section \<open>The Create handler\<close>

lemma create_or_update_deployment_live:
  assumes "create_or_update_deployment api name body ns w = (Inr live, w')"
  shows "(\<exists>c c'. create_namespaced_deployment api body ns c = (Inr live, c'))
       \<or> (\<exists>c c'. patch_namespaced_deployment api name ns body c = (Inr live, c'))"
  using assms
  by (auto simp: create_or_update_deployment_def mutating_call_def
      split: prod.splits sum.splits error.splits if_splits)

lemma create_deployment_and_service_status:
  assumes "create_deployment_and_service rt api name ns repo tag replicas res port env w = (Inr st, w')"
  shows "\<exists>body live wl. create_or_update_deployment api name body ns w = (Inr live, wl)
           \<and> child_status rt live = Inr st"
proof (cases port)
  case None
  with assms show ?thesis by (simp add: create_deployment_and_service_def)
next
  case (Some p)
  with assms have "and_then (create_or_update_deployment api name
        (adopt_deployment rt (create_deployment_object rt name ns repo tag replicas res [p] env)) ns)
      (\<lambda>deployment. and_then (create_or_update_service api name
          (adopt_service rt (built_service_object name ns p)) ns)
        (\<lambda>service. lift (child_status rt deployment))) w = (Inr st, w')"
    by (simp add: create_deployment_and_service_def Let_def built_service_object_def)
  then show ?thesis
  proof (cases rule: and_then_cases)
    case (went_on live wl)
    from went_on(2) have "child_status rt live = Inr st"
      by (auto simp: lift_def elim!: and_then_cases)
    with went_on(1) show ?thesis by blast
  qed simp
qed

lemma child_status_uid:
  assumes "child_status rt live = Inr st" and "uid_assigned live"
  shows "\<exists>created_on uid. uid \<noteq> [] \<and>
           st = JDict [(''created_on'', JStr created_on), (''uid'', JStr uid)]"
  using assms
  by (auto simp: child_status_def uid_assigned_def split: option.splits)

lemma redis_deployment_object_spec:
  "\<exists>sp. d_spec (redis_deployment_object rt ns) = Some sp
      \<and> ds_replicas sp = JInt 1
      \<and> t_containers (ds_template sp) =
          [\<lparr>c_name = ''redis'', c_image = ''redis:7.0.12'', c_ports = [6379],
            c_resources =
              \<lparr>rr_requests = [(''cpu'', JStr ''100m''), (''memory'', JStr ''32Mi'')],
               rr_limits = [(''cpu'', JStr ''1000m''), (''memory'', JStr ''128Mi'')]\<rparr>,
            c_env = None\<rparr>]"
  by (simp add: redis_deployment_object_def create_deployment_object_def redis_resources_def)

lemma on_create_cases:
  assumes run: "on_create rt api ns spec w = (Inr result, w')"
  obtains enabled podinfo_status wp redis_status
    where "py_get (dict_get spec ''redis'' (JDict [])) ''enabled'' = Inr enabled"
      and "create_podinfo_deployment_and_service rt api ns spec w = (Inr podinfo_status, wp)"
      and "(if truthy enabled then create_redis_deployment_and_service rt api ns spec
            else lift (Inr DEFAULT_STATUS)) wp = (Inr redis_status, w')"
      and "result = JDict [(''children'',
             JDict [(''redis'', redis_status), (''podInfo'', podinfo_status)])]"
  using run unfolding on_create_def
  apply (elim lift_and_then_cases and_then_cases)
         apply simp_all
  apply (auto simp: lift_def)
  done

text \<open>
  C5. Let the Create handler return a status. When \<open>spec.redis.enabled\<close> is true, the
  podinfo sequence is followed by the redis create sequence, whose first call creates the
  adopted redis Deployment: one container with the image \<open>redis:7.0.12\<close>, the fixed
  requests and limits and no environment, one replica; the status returned for \<open>redis\<close> has
  the uid of the live Deployment, which is not empty when the cluster gives every Deployment
  it returns a non-empty uid. When \<open>spec.redis.enabled\<close> is false or absent, or the \<open>redis\<close>
  key is absent, the handler stops after the podinfo sequence, so nothing is created for
  redis, and the status of \<open>redis\<close> is the default \<open>Not Created\<close> with the empty uid.
\<close>

theorem on_create_redis_conditional:
  assumes run: "on_create rt api ns spec w = (Inr result, w')"
    and enabled: "py_get (dict_get spec ''redis'' (JDict [])) ''enabled'' = Inr enabled"
    and created_uid: "\<forall>body ns c live c'.
        create_namespaced_deployment api body ns c = (Inr live, c') \<longrightarrow> uid_assigned live"
    and patched_uid: "\<forall>name ns body c live c'.
        patch_namespaced_deployment api name ns body c = (Inr live, c') \<longrightarrow> uid_assigned live"
  shows "(truthy enabled \<longrightarrow>
            (\<exists>podinfo_status wp created_on uid cs.
               create_podinfo_deployment_and_service rt api ns spec w = (Inr podinfo_status, wp)
             \<and> calls w' = calls wp
                  @ CreateDeployment (adopt_deployment rt (redis_deployment_object rt ns)) ns # cs
             \<and> uid \<noteq> []
             \<and> result = JDict [(''children'',
                 JDict [(''redis'', JDict [(''created_on'', JStr created_on), (''uid'', JStr uid)]),
                        (''podInfo'', podinfo_status)])]))
       \<and> (\<exists>sp. d_spec (redis_deployment_object rt ns) = Some sp
             \<and> ds_replicas sp = JInt 1
             \<and> t_containers (ds_template sp) =
                 [\<lparr>c_name = ''redis'', c_image = ''redis:7.0.12'', c_ports = [6379],
                   c_resources =
                     \<lparr>rr_requests = [(''cpu'', JStr ''100m''), (''memory'', JStr ''32Mi'')],
                      rr_limits = [(''cpu'', JStr ''1000m''), (''memory'', JStr ''128Mi'')]\<rparr>,
                   c_env = None\<rparr>])
       \<and> (\<not> truthy enabled \<longrightarrow>
            (\<exists>podinfo_status.
               create_podinfo_deployment_and_service rt api ns spec w = (Inr podinfo_status, w')
             \<and> result = JDict [(''children'',
                 JDict [(''redis'', JDict [(''created_on'', JStr ''Not Created''), (''uid'', JStr [])]),
                        (''podInfo'', podinfo_status)])]))"
proof -
  from run obtain enabled' podinfo_status wp redis_status
    where e: "py_get (dict_get spec ''redis'' (JDict [])) ''enabled'' = Inr enabled'"
      and p: "create_podinfo_deployment_and_service rt api ns spec w = (Inr podinfo_status, wp)"
      and r: "(if truthy enabled' then create_redis_deployment_and_service rt api ns spec
            else lift (Inr DEFAULT_STATUS)) wp = (Inr redis_status, w')"
      and res: "result = JDict [(''children'',
             JDict [(''redis'', redis_status), (''podInfo'', podinfo_status)])]"
    by (rule on_create_cases)
  from e enabled have same: "enabled' = enabled" by simp
  have on: ?thesis if t: "truthy enabled"
  proof -
    from r t same have rr: "create_redis_deployment_and_service rt api ns spec wp = (Inr redis_status, w')"
      by simp
    from create_redis_first_call [of rt api ns spec wp] rr
    obtain cs where cs: "calls w' = calls wp
        @ CreateDeployment (adopt_deployment rt (redis_deployment_object rt ns)) ns # cs"
      by auto
    from create_deployment_and_service_status [OF rr [unfolded create_redis_deployment_and_service_def]]
    obtain body live wl where
      live: "create_or_update_deployment api REDIS_DEPLOYMENT_NAME body ns wp = (Inr live, wl)"
      and st: "child_status rt live = Inr redis_status"
      by blast
    from create_or_update_deployment_live [OF live] created_uid patched_uid
    have "uid_assigned live" by blast
    from child_status_uid [OF st this] obtain created_on uid where
      "uid \<noteq> []" "redis_status = JDict [(''created_on'', JStr created_on), (''uid'', JStr uid)]"
      by blast
    with p cs res t redis_deployment_object_spec [of rt ns] show ?thesis by blast
  qed
  have off: ?thesis if f: "\<not> truthy enabled"
  proof -
    from r f same have "w' = wp" "redis_status = DEFAULT_STATUS"
      by (simp_all add: lift_def)
    with p res f redis_deployment_object_spec [of rt ns] show ?thesis
      by (simp add: DEFAULT_STATUS_def)
  qed
  from on off show ?thesis by blast
qed

lemma sim_api_assigns_uid:
  "\<forall>body ns c live c'.
      create_namespaced_deployment sim_api body ns c = (Inr live, c') \<longrightarrow> uid_assigned live"
  "\<forall>name ns body c live c'.
      patch_namespaced_deployment sim_api name ns body c = (Inr live, c') \<longrightarrow> uid_assigned live"
  by (auto simp: sim_api_def uid_assigned_def stamp_meta_def Let_def split: if_splits)

lemma on_create_example:
  "on_create sim_runtime sim_api ''default'' example_spec empty_world =
     (Inr (JDict [(''children'',
        JDict [(''redis'', JDict [(''created_on'', JStr ''t0''), (''uid'', JStr ''uid-redis'')]),
               (''podInfo'', JDict [(''created_on'', JStr ''t0''), (''uid'', JStr ''uid-podinfo'')])])]),
      snd (on_create sim_runtime sim_api ''default'' example_spec empty_world))"
  by (simp add: run_defs str_of_nat_zero)

lemma on_create_plain:
  "on_create sim_runtime sim_api ''default'' plain_spec empty_world =
     (Inr (JDict [(''children'',
        JDict [(''redis'', DEFAULT_STATUS),
               (''podInfo'', JDict [(''created_on'', JStr ''t0''), (''uid'', JStr ''uid-podinfo'')])])]),
      snd (create_podinfo_deployment_and_service sim_runtime sim_api ''default'' plain_spec
         empty_world))"
  by (simp add: run_defs plain_spec_def str_of_nat_zero)

theorem on_create_redis_conditional_witness:
  "fst (on_create sim_runtime sim_api ''default'' example_spec empty_world) =
     Inr (JDict [(''children'',
        JDict [(''redis'', JDict [(''created_on'', JStr ''t0''), (''uid'', JStr ''uid-redis'')]),
               (''podInfo'', JDict [(''created_on'', JStr ''t0''), (''uid'', JStr ''uid-podinfo'')])])])
   \<and> on_create sim_runtime sim_api ''default'' plain_spec empty_world =
     (Inr (JDict [(''children'',
        JDict [(''redis'', JDict [(''created_on'', JStr ''Not Created''), (''uid'', JStr [])]),
               (''podInfo'', JDict [(''created_on'', JStr ''t0''), (''uid'', JStr ''uid-podinfo'')])])]),
      snd (create_podinfo_deployment_and_service sim_runtime sim_api ''default'' plain_spec
         empty_world))
   \<and> map call_target (calls (snd (on_create sim_runtime sim_api ''default'' plain_spec empty_world)))
     = [Some ''podinfo'', Some ''podinfo'']"
proof -
  have en: "py_get (dict_get example_spec ''redis'' (JDict [])) ''enabled'' = Inr (JBool True)"
    by (simp add: example_spec_def dict_get_def)
  have dis: "py_get (dict_get plain_spec ''redis'' (JDict [])) ''enabled'' = Inr JNone"
    by (simp add: plain_spec_def dict_get_def)
  have targets: "map call_target
      (calls (snd (on_create sim_runtime sim_api ''default'' plain_spec empty_world)))
     = [Some ''podinfo'', Some ''podinfo'']"
    by (simp add: run_defs plain_spec_def)
  have first: "fst (on_create sim_runtime sim_api ''default'' example_spec empty_world) =
     Inr (JDict [(''children'',
        JDict [(''redis'', JDict [(''created_on'', JStr ''t0''), (''uid'', JStr ''uid-redis'')]),
               (''podInfo'', JDict [(''created_on'', JStr ''t0''), (''uid'', JStr ''uid-podinfo'')])])])"
    using on_create_example by (metis fst_conv)
  from on_create_redis_conditional [OF on_create_example en sim_api_assigns_uid]
    on_create_redis_conditional [OF on_create_plain dis sim_api_assigns_uid]
    on_create_plain targets
  show ?thesis
    by (simp add: DEFAULT_STATUS_def first)
qed

section \<open>Merging child statuses\<close>

lemma merge_statuses_simps:
  "merge_statuses children [] = children"
  "merge_statuses children ((k, v) # computed) = merge_statuses (AList.update k v children) computed"
  "merge_statuses children (first @ later) = merge_statuses (merge_statuses children first) later"
  by (simp_all add: merge_statuses_def)

lemma map_of_merge_statuses:
  "map_of (merge_statuses children computed) = map_of children ++ map_of (rev computed)"
proof (induction computed arbitrary: children)
  case Nil
  then show ?case by (simp add: merge_statuses_simps)
next
  case (Cons c computed)
  obtain k v where c: "c = (k, v)" by (cases c)
  have "map_of (merge_statuses children (c # computed)) =
      map_of (AList.update k v children) ++ map_of (rev computed)"
    by (simp add: c merge_statuses_simps Cons.IH)
  also have "\<dots> = (map_of children ++ map_of [(k, v)]) ++ map_of (rev computed)"
    by (simp add: update_conv')
  also have "\<dots> = map_of children ++ map_of (rev (c # computed))"
    by (simp add: c)
  finally show ?case .
qed

text \<open>
  One iteration on a children map that is a dict: it raises what the policy raises, and
  otherwise returns the map with the status the policy computed merged in.
\<close>

lemma on_update_entry_merges:
  "on_update_entry rt api ns spec entry (JDict children) w =
     (case computed_child_status rt api ns spec entry w of
        (Inl ex, w1) \<Rightarrow> (Inl ex, w1)
      | (Inr computed, w1) \<Rightarrow> (Inr (JDict (merge_statuses children computed)), w1))"
proof -
  obtain oper field old_val new_val where entry: "entry = (oper, field, old_val, new_val)"
    by (cases entry) auto
  show ?thesis
    unfolding entry
    by (auto simp: computed_child_status_def redis_policy_def podinfo_policy_def and_then_def
        lift_def merge_statuses_def Let_def split: prod.splits sum.splits option.splits)
qed

lemma on_update_loop_merges:
  "on_update_loop rt api ns spec diff (JDict children) w =
     (case computed_child_statuses rt api ns spec diff w of
        (Inl ex, w') \<Rightarrow> (Inl ex, w')
      | (Inr computed, w') \<Rightarrow> (Inr (JDict (merge_statuses children computed)), w'))"
proof (induction diff arbitrary: children w)
  case Nil
  show ?case by (simp add: merge_statuses_simps)
next
  case (Cons entry diff)
  show ?case
    by (simp add: on_update_entry_merges Cons.IH merge_statuses_simps
        split: prod.splits sum.splits)
qed

lemma computed_child_status_keys:
  "computed_child_status rt api ns spec entry w = (Inr computed, w') \<Longrightarrow>
     fst ` set computed \<subseteq> {''redis'', ''podInfo''}"
  by (cases entry)
    (auto simp: computed_child_status_def and_then_def lift_def
      split: prod.splits sum.splits option.splits if_splits)

lemma computed_child_statuses_keys:
  "computed_child_statuses rt api ns spec diff w = (Inr computed, w') \<Longrightarrow>
     fst ` set computed \<subseteq> {''redis'', ''podInfo''}"
proof (induction diff arbitrary: w computed)
  case Nil
  then show ?case by simp
next
  case (Cons entry diff)
  from Cons.prems obtain first w1 later
    where "computed_child_status rt api ns spec entry w = (Inr first, w1)"
      and "computed_child_statuses rt api ns spec diff w1 = (Inr later, w')"
      and "computed = first @ later"
    by (auto split: prod.splits sum.splits)
  with computed_child_status_keys [of rt api ns spec entry w first w1] Cons.IH [of w1 later]
  show ?case by auto
qed

text \<open>
  C9. The Update handler reads the children map at \<open>status.on_create.children\<close>, makes the
  cluster calls of the update policy and raises what the policy raises; when the policy
  completes, the handler returns that children map with every child status computed during
  the update merged in, in the order computed. The computed statuses are keyed by \<open>redis\<close> or
  \<open>podInfo\<close>; a key for which no status was computed keeps its entry, and a key for which
  statuses were computed carries the last of them.
\<close>

theorem on_update_merges_computed_statuses:
  assumes recorded: "map_of status ''on_create'' = Some recorded"
    and children: "py_getitem recorded ''children'' = Inr (JDict children)"
  shows "on_update rt api ns spec status diff w =
           (case computed_child_statuses rt api ns spec diff w of
              (Inl ex, wd) \<Rightarrow> (Inl ex, wd)
            | (Inr computed, wd) \<Rightarrow> (Inr (JDict (merge_statuses children computed)), wd))
       \<and> (computed_child_statuses rt api ns spec diff w = (Inr computed, w') \<longrightarrow>
            fst ` set computed \<subseteq> {''redis'', ''podInfo''}
          \<and> (\<forall>k. k \<notin> fst ` set computed \<longrightarrow>
                map_of (merge_statuses children computed) k = map_of children k)
          \<and> (\<forall>k v. map_of (rev computed) k = Some v \<longrightarrow>
                map_of (merge_statuses children computed) k = Some v))"
proof (intro conjI impI allI)
  from recorded children
  show "on_update rt api ns spec status diff w =
           (case computed_child_statuses rt api ns spec diff w of
              (Inl ex, wd) \<Rightarrow> (Inl ex, wd)
            | (Inr computed, wd) \<Rightarrow> (Inr (JDict (merge_statuses children computed)), wd))"
    by (simp add: on_update_def mapping_getitem_def on_update_loop_merges)
next
  assume "computed_child_statuses rt api ns spec diff w = (Inr computed, w')"
  then show "fst ` set computed \<subseteq> {''redis'', ''podInfo''}"
    by (rule computed_child_statuses_keys)
next
  fix k
  assume "k \<notin> fst ` set computed"
  then have "map_of (rev computed) k = None"
    by (simp add: map_of_eq_None_iff)
  then show "map_of (merge_statuses children computed) k = map_of children k"
    by (simp add: map_of_merge_statuses map_add_def)
next
  fix k v
  assume "map_of (rev computed) k = Some v"
  then show "map_of (merge_statuses children computed) k = Some v"
    by (simp add: map_of_merge_statuses map_add_def)
qed

lemma computed_example:
  "computed_child_statuses sim_runtime sim_api ''default'' example_spec example_diff
       (world_with ''podinfo'')
     = (Inr [(''redis'', JDict [(''created_on'', JStr ''t0''), (''uid'', JStr ''uid-redis'')]),
             (''podInfo'', JDict [(''created_on'', JStr ''t0''), (''uid'', JStr ''uid-podinfo'')])],
        snd (computed_child_statuses sim_runtime sim_api ''default'' example_spec example_diff
          (world_with ''podinfo'')))"
  by (simp add: example_diff_def computed_child_status_def update_defs run_defs str_of_nat_zero)

theorem on_update_merges_computed_statuses_witness:
  "fst (on_update sim_runtime sim_api ''default'' example_spec example_status example_diff
       (world_with ''podinfo''))
     = Inr (JDict [(''redis'', JDict [(''created_on'', JStr ''t0''), (''uid'', JStr ''uid-redis'')]),
                   (''podInfo'', JDict [(''created_on'', JStr ''t0''),
                                        (''uid'', JStr ''uid-podinfo'')]),
                   (''other'', JStr ''kept'')])
   \<and> map call_target (calls (snd (on_update sim_runtime sim_api ''default'' example_spec
       example_status example_diff (world_with ''podinfo''))))
     = [None, Some ''redis'', Some ''redis'', None, Some ''podinfo'', Some ''podinfo'',
        Some ''podinfo'']"
proof -
  have recorded: "map_of example_status ''on_create'' =
      Some (JDict [(''children'',
        JDict [(''redis'', DEFAULT_STATUS),
               (''podInfo'', JDict [(''created_on'', JStr ''earlier''),
                                    (''uid'', JStr ''uid-earlier'')]),
               (''other'', JStr ''kept'')])])"
    by (simp add: example_status_def)
  have children: "py_getitem (JDict [(''children'',
        JDict [(''redis'', DEFAULT_STATUS),
               (''podInfo'', JDict [(''created_on'', JStr ''earlier''),
                                    (''uid'', JStr ''uid-earlier'')]),
               (''other'', JStr ''kept'')])]) ''children'' =
      Inr (JDict [(''redis'', DEFAULT_STATUS),
               (''podInfo'', JDict [(''created_on'', JStr ''earlier''),
                                    (''uid'', JStr ''uid-earlier'')]),
               (''other'', JStr ''kept'')])"
    by (simp add: mapping_getitem_def)
  have targets: "map call_target (calls (snd
      (computed_child_statuses sim_runtime sim_api ''default'' example_spec example_diff
         (world_with ''podinfo''))))
     = [None, Some ''redis'', Some ''redis'', None, Some ''podinfo'', Some ''podinfo'',
        Some ''podinfo'']"
    by (simp add: example_diff_def computed_child_status_def update_defs run_defs)
  note t = on_update_merges_computed_statuses [OF recorded children,
      where rt = sim_runtime and api = sim_api and ns = "''default''" and spec = example_spec
        and diff = example_diff and w = "world_with ''podinfo''"
        and computed = "[(''redis'', JDict [(''created_on'', JStr ''t0''), (''uid'', JStr ''uid-redis'')]),
             (''podInfo'', JDict [(''created_on'', JStr ''t0''), (''uid'', JStr ''uid-podinfo'')])]"
        and w' = "snd (computed_child_statuses sim_runtime sim_api ''default'' example_spec
          example_diff (world_with ''podinfo''))"]
  have result: "on_update sim_runtime sim_api ''default'' example_spec example_status example_diff
       (world_with ''podinfo'') =
     (Inr (JDict (merge_statuses
        [(''redis'', DEFAULT_STATUS),
         (''podInfo'', JDict [(''created_on'', JStr ''earlier''), (''uid'', JStr ''uid-earlier'')]),
         (''other'', JStr ''kept'')]
        [(''redis'', JDict [(''created_on'', JStr ''t0''), (''uid'', JStr ''uid-redis'')]),
         (''podInfo'', JDict [(''created_on'', JStr ''t0''), (''uid'', JStr ''uid-podinfo'')])])),
      snd (computed_child_statuses sim_runtime sim_api ''default'' example_spec example_diff
          (world_with ''podinfo'')))"
    using t computed_example by (metis (no_types, lifting) case_prod_conv sum.case(2))
  show ?thesis
    using targets by (simp add: result merge_statuses_def)
qed

end
